theory Spec2Isabelle
  imports Main "HOL-Library.Multiset"
begin

section \<open>Raw issue data delivered by the analysis backend\<close>

text \<open>
  The tools work on loosely typed JSON records (\<open>any\<close> in the TypeScript). Every field
  the code reads through \<open>?.\<close> or \<open>||\<close> is optional here. Line numbers and column
  offsets are natural numbers; a string is a list of characters, one per code unit.
\<close>

record text_range =
  startLine :: "nat option"
  startLineOffset :: "nat option"
  endLine :: "nat option"
  endLineOffset :: "nat option"

record text_edit =
  edit_range :: "text_range option"
  newText :: "string option"

record file_edit =
  textEdits :: "text_edit list option"

record quick_fix =
  message :: "string option"
  inputFileEdits :: "file_edit list option"
  fileEdits :: "file_edit list option"

text \<open>
  A raw issue. \<open>issueStartLine\<close> is the top-level \<open>issue.startLine\<close> (the name
  \<open>startLine\<close> is taken by the field of \<open>text_range\<close>). Only the fields the two
  apply tools read are kept.
\<close>

record raw_issue =
  ruleKey :: string
  textRange :: "text_range option"
  issueStartLine :: "nat option"
  quickFixes :: "quick_fix list option"

text \<open>
  What the tools throw. The first five are the \<open>SloopError\<close>s of the source, named by
  their messages (\<open>File not found\<close>, \<open>Issue not found\<close>, \<open>No quick fix available\<close>,
  \<open>Backend not found\<close>, \<open>Failed to initialize SLOOP\<close>); \<open>BackendError\<close> is an error
  of a call on the bridge, \<open>TypeError\<close> the property access on \<open>undefined\<close>, and
  \<open>IOError\<close> an error of \<open>readFileSync\<close> or \<open>writeFileSync\<close> with its code.
\<close>

datatype error =
    FileNotFound string
  | IssueNotFound
  | NoQuickFixAvailable
  | BackendNotFound
  | BackendInitFailed
  | BackendError
  | TypeError
  | IOError string

section \<open>JavaScript primitives used by the tools\<close>

text \<open>\<open>v || d\<close> on an optional number: \<open>undefined\<close> and \<open>0\<close> are falsy.\<close>

definition orElse :: "nat option \<Rightarrow> nat \<Rightarrow> nat" where
  "orElse v d = (case v of None \<Rightarrow> d | Some n \<Rightarrow> if n = 0 then d else n)"

text \<open>\<open>r?.f\<close>: the field \<open>f\<close> of an optional record.\<close>

definition optField :: "'r option \<Rightarrow> ('r \<Rightarrow> 'a option) \<Rightarrow> 'a option" where
  "optField r f = (case r of None \<Rightarrow> None | Some x \<Rightarrow> f x)"

text \<open>\<open>s || ''\<close> and \<open>s || dflt\<close> on an optional string: \<open>undefined\<close> and \<open>''\<close> are falsy.\<close>

definition strOrElse :: "string option \<Rightarrow> string \<Rightarrow> string" where
  "strOrElse s d = (case s of None \<Rightarrow> d | Some t \<Rightarrow> if t = [] then d else t)"

text \<open>\<open>s.substring(0, n)\<close> and \<open>s.substring(n)\<close> for \<open>n \<ge> 0\<close>; both clamp at the length.\<close>

definition substringTo :: "string \<Rightarrow> nat \<Rightarrow> string" where
  "substringTo s n = take n s"

definition substringFrom :: "string \<Rightarrow> nat \<Rightarrow> string" where
  "substringFrom s n = drop n s"

text \<open>
  \<open>xs.splice(start, deleteCount, item)\<close>: a negative delete count counts as zero, and
  start and count are clamped to the array.
\<close>

definition splice :: "'a list \<Rightarrow> nat \<Rightarrow> int \<Rightarrow> 'a \<Rightarrow> 'a list" where
  "splice xs start deleteCount item = take start xs @ [item] @ drop (start + nat deleteCount) xs"

text \<open>\<open>content.split('\n')\<close> and \<open>lines.join('\n')\<close>.\<close>

fun splitLines :: "string \<Rightarrow> string list" where
  "splitLines [] = [[]]"
| "splitLines (c # cs) =
     (if c = CHR 0x0A then [] # splitLines cs
      else (case splitLines cs of [] \<Rightarrow> [[c]] | l # ls \<Rightarrow> (c # l) # ls))"

fun joinLines :: "string list \<Rightarrow> string" where
  "joinLines [] = []"
| "joinLines [l] = l"
| "joinLines (l # m # ls) = l @ [CHR 0x0A] @ joinLines (m # ls)"

text \<open>
  \<open>[...xs].sort(cmp)\<close>. The sort of the language is stable and places \<open>x\<close> before
  \<open>y\<close> when \<open>cmp(x, y) < 0\<close>; elements that compare equal keep their input order.
\<close>

fun insertBy :: "('a \<Rightarrow> 'a \<Rightarrow> int) \<Rightarrow> 'a \<Rightarrow> 'a list \<Rightarrow> 'a list" where
  "insertBy cmp x [] = [x]"
| "insertBy cmp x (y # ys) = (if cmp x y \<le> 0 then x # y # ys else y # insertBy cmp x ys)"

definition sortBy :: "('a \<Rightarrow> 'a \<Rightarrow> int) \<Rightarrow> 'a list \<Rightarrow> 'a list" where
  "sortBy cmp xs = foldr (insertBy cmp) xs []"

section \<open>Applying one text edit to the line buffer\<close>

text \<open>
  The body of the innermost loop, identical in \<open>handleApplyAllQuickFixes\<close> and
  \<open>handleApplyQuickFix\<close>. The five local constants of the source first.
\<close>

definition editStartLine :: "text_edit \<Rightarrow> nat" where
  "editStartLine edit = orElse (optField (edit_range edit) startLine) 1 - 1"

definition editStartCol :: "text_edit \<Rightarrow> nat" where
  "editStartCol edit = orElse (optField (edit_range edit) startLineOffset) 0"

definition editEndLine :: "text_edit \<Rightarrow> nat" where
  "editEndLine edit = orElse (optField (edit_range edit) endLine) (editStartLine edit + 1) - 1"

text \<open>\<open>lines[i]?.length\<close>: undefined when the index is outside the array.\<close>

definition lineLength :: "string list \<Rightarrow> nat \<Rightarrow> nat option" where
  "lineLength lines i = (if i < length lines then Some (length (lines ! i)) else None)"

definition editEndCol :: "string list \<Rightarrow> text_edit \<Rightarrow> nat" where
  "editEndCol lines edit =
     orElse (optField (edit_range edit) endLineOffset)
       (orElse (lineLength lines (editEndLine edit)) 0)"

definition editNewText :: "text_edit \<Rightarrow> string" where
  "editNewText edit = strOrElse (newText edit) []"

text \<open>
  Calling \<open>substring\<close> on \<open>lines[i]\<close> with \<open>i\<close> outside the array throws a
  \<open>TypeError\<close>; the assignment and the splice come after it.
\<close>

definition applyTextEdit :: "string list \<Rightarrow> text_edit \<Rightarrow> error + string list" where
  "applyTextEdit lines edit =
     (let sl = editStartLine edit;
          startCol = editStartCol edit;
          el = editEndLine edit;
          endCol = editEndCol lines edit;
          new = editNewText edit
      in if sl = el then
           (if sl < length lines then
              Inr (lines[sl := substringTo (lines ! sl) startCol @ new
                                 @ substringFrom (lines ! sl) endCol])
            else Inl TypeError)
         else
           (if sl < length lines then
              (if el < length lines then
                 Inr (splice lines sl (int el - int sl + 1)
                        ((substringTo (lines ! sl) startCol @ new)
                           @ substringFrom (lines ! el) endCol))
               else Inl TypeError)
            else Inl TypeError))"

text \<open>The comparator of the inner sort: descending by \<open>range?.startLine || 0\<close>.\<close>

definition editSortLine :: "text_edit \<Rightarrow> nat" where
  "editSortLine e = orElse (optField (edit_range e) startLine) 0"

definition compareEdits :: "text_edit \<Rightarrow> text_edit \<Rightarrow> int" where
  "compareEdits a b = int (editSortLine b) - int (editSortLine a)"

fun applyTextEdits :: "string list \<Rightarrow> text_edit list \<Rightarrow> error + string list" where
  "applyTextEdits lines [] = Inr lines"
| "applyTextEdits lines (e # es) =
     (case applyTextEdit lines e of
        Inl err \<Rightarrow> Inl err
      | Inr lines' \<Rightarrow> applyTextEdits lines' es)"

text \<open>The loop over \<open>fileEdits\<close>; a file edit without \<open>textEdits\<close> is skipped.\<close>

fun applyFileEdits :: "string list \<Rightarrow> file_edit list \<Rightarrow> error + string list" where
  "applyFileEdits lines [] = Inr lines"
| "applyFileEdits lines (fe # fes) =
     (case textEdits fe of
        None \<Rightarrow> applyFileEdits lines fes
      | Some tes \<Rightarrow>
          (case applyTextEdits lines (sortBy compareEdits tes) of
             Inl err \<Rightarrow> Inl err
           | Inr lines' \<Rightarrow> applyFileEdits lines' fes))"

text \<open>
  \<open>quickFix.inputFileEdits || quickFix.fileEdits || []\<close>; an array is truthy even when
  it is empty.
\<close>

definition quickFixFileEdits :: "quick_fix \<Rightarrow> file_edit list" where
  "quickFixFileEdits q =
     (case inputFileEdits q of
        Some es \<Rightarrow> es
      | None \<Rightarrow> (case fileEdits q of Some es \<Rightarrow> es | None \<Rightarrow> []))"


section \<open>The process state and the outside world\<close>

text \<open>
  A file on disk with the two permissions that decide whether \<open>readFileSync\<close> and
  \<open>writeFileSync\<close> throw. A write replaces the whole content or fails without effect.
\<close>

record disk_file =
  content :: string
  readable :: bool
  writable :: bool

text \<open>The \<open>ClientFileDto\<close> sent with \<open>file/didUpdateFileSystem\<close> (\<open>isTest\<close> is always null).\<close>

record client_file_dto =
  uri :: string
  ideRelativePath :: string
  configScopeId :: string
  charset :: string
  fsPath :: string
  dtoContent :: string
  detectedLanguage :: string
  isUserDefined :: bool

text \<open>
  What the process does to the outside, in order: the attempt to connect the bridge, the
  calls on the bridge, the timer, every \<open>writeFileSync\<close> with its path and content, and
  the \<open>console.error\<close> of a catch handler (the informational log lines are left out).
\<close>

datatype event =
    Connect
  | AddConfigurationScope string string
  | AnalyzeFilesAndTrack string "string list"
  | DidOpenFile string string
  | DidUpdateFileSystem "client_file_dto list" "client_file_dto list" "client_file_dto list"
  | SetTimeout nat
  | WriteFile string string
  | ConsoleError string error

text \<open>
  The module state of \<open>state.ts\<close> (\<open>scopeMap\<close> in insertion order, \<open>sloopBridge\<close>
  null or connected), the file system, and the trace of events so far.
\<close>

record world =
  files :: "string \<Rightarrow> disk_file option"
  canCreate :: "string \<Rightarrow> bool"
  scopeMap :: "(string \<times> string) list"
  sloopBridge :: bool
  trace :: "event list"

text \<open>
  What the tools take from outside, as parameters: functions of the Node library
  (\<open>path\<close>, \<open>crypto\<close>, \<open>JSON\<close>, \<open>String\<close>), whether the backend is installed and
  connects, and the behaviour of the \<open>SloopBridge\<close> class of \<open>sloop-bridge.ts\<close>.
  \<open>callOk t\<close> tells whether the bridge call that ends the trace \<open>t\<close> returns normally
  (a call that fails throws at once, also the notifications, which the code does not
  await); \<open>rawIssuesOf t fs\<close> is the \<open>rawIssues\<close> field of the analysis that ends the
  trace \<open>t\<close> on the file system \<open>fs\<close>.
\<close>

record env =
  dirname :: "string \<Rightarrow> string"
  relative :: "string \<Rightarrow> string \<Rightarrow> string"
  extname :: "string \<Rightarrow> string"
  toLowerCase :: "string \<Rightarrow> string"
  toUpperCase :: "string \<Rightarrow> string"
  md5hex :: "string \<Rightarrow> string"
  stringify :: "raw_issue \<Rightarrow> string"
  pluginsInstalled :: bool
  connectOk :: bool
  callOk :: "event list \<Rightarrow> bool"
  rawIssuesOf :: "event list \<Rightarrow> (string \<Rightarrow> disk_file option) \<Rightarrow> raw_issue list option"

definition existsSync :: "world \<Rightarrow> string \<Rightarrow> bool" where
  "existsSync w p = (files w p \<noteq> None)"

definition readFileSync :: "world \<Rightarrow> string \<Rightarrow> error + string" where
  "readFileSync w p =
     (case files w p of
        None \<Rightarrow> Inl (IOError ''ENOENT'')
      | Some f \<Rightarrow> if readable f then Inr (content f) else Inl (IOError ''EACCES''))"

definition logEvent :: "world \<Rightarrow> event \<Rightarrow> world" where
  "logEvent w ev = w\<lparr>trace := trace w @ [ev]\<rparr>"

text \<open>A write is recorded, then it replaces the content or throws.\<close>

definition writeFileSync :: "world \<Rightarrow> string \<Rightarrow> string \<Rightarrow> (error + unit) \<times> world" where
  "writeFileSync w p c =
     (let w0 = logEvent w (WriteFile p c)
      in case files w p of
           None \<Rightarrow>
             if canCreate w p
             then (Inr (), w0\<lparr>files := (files w)(p \<mapsto> \<lparr>content = c, readable = True, writable = True\<rparr>)\<rparr>)
             else (Inl (IOError ''ENOENT''), w0)
         | Some f \<Rightarrow>
             if writable f
             then (Inr (), w0\<lparr>files := (files w)(p \<mapsto> f\<lparr>content := c\<rparr>)\<rparr>)
             else (Inl (IOError ''EACCES''), w0))"

text \<open>A call on the bridge: recorded, then it returns or throws.\<close>

definition bridgeCall :: "env \<Rightarrow> world \<Rightarrow> event \<Rightarrow> (error + unit) \<times> world" where
  "bridgeCall env w ev =
     (let w' = logEvent w ev
      in if callOk env (trace w') then (Inr (), w') else (Inl BackendError, w'))"

definition analyzeFilesAndTrack ::
  "env \<Rightarrow> world \<Rightarrow> string \<Rightarrow> string list \<Rightarrow> (error + raw_issue list option) \<times> world" where
  "analyzeFilesAndTrack env w scopeId paths =
     (case bridgeCall env w (AnalyzeFilesAndTrack scopeId paths) of
        (Inl e, w') \<Rightarrow> (Inl e, w')
      | (Inr _, w') \<Rightarrow> (Inr (rawIssuesOf env (trace w') (files w')), w'))"

section \<open>\<open>utils/sloop.ts\<close>: the bridge\<close>

definition ensureSloopBridge :: "env \<Rightarrow> world \<Rightarrow> (error + unit) \<times> world" where
  "ensureSloopBridge env w =
     (if sloopBridge w then (Inr (), w)
      else if \<not> pluginsInstalled env then (Inl BackendNotFound, w)
      else if connectOk env then (Inr (), (logEvent w Connect)\<lparr>sloopBridge := True\<rparr>)
      else (Inl BackendInitFailed, logEvent w Connect))"

section \<open>\<open>utils/scope.ts\<close>: the scope map\<close>

text \<open>\<open>Map.get\<close> and \<open>Map.set\<close> on a map kept in insertion order.\<close>

definition mapGet :: "('k \<times> 'v) list \<Rightarrow> 'k \<Rightarrow> 'v option" where
  "mapGet m k = map_of m k"

fun mapSet :: "('k \<times> 'v) list \<Rightarrow> 'k \<Rightarrow> 'v \<Rightarrow> ('k \<times> 'v) list" where
  "mapSet [] k v = [(k, v)]"
| "mapSet ((k', v') # m) k v = (if k' = k then (k, v) # m else (k', v') # mapSet m k v)"

text \<open>\<open>if (scopeId)\<close>: a missing entry and the empty string are falsy.\<close>

definition truthy :: "string option \<Rightarrow> string option" where
  "truthy s = (case s of None \<Rightarrow> None | Some t \<Rightarrow> if t = [] then None else Some t)"

definition getOrCreateScope :: "env \<Rightarrow> world \<Rightarrow> string \<Rightarrow> (error + string) \<times> world" where
  "getOrCreateScope env w filePath =
     (let projectRoot = dirname env filePath
      in case truthy (mapGet (scopeMap w) projectRoot) of
           Some scopeId \<Rightarrow> (Inr scopeId, w)
         | None \<Rightarrow>
             (let hash = take 8 (md5hex env projectRoot);
                  newScopeId = ''scope-'' @ hash
              in case (if sloopBridge w
                       then bridgeCall env w
                              (AddConfigurationScope newScopeId (''Project: '' @ projectRoot))
                       else (Inr (), w)) of
                   (Inl e, w1) \<Rightarrow> (Inl e, w1)
                 | (Inr _, w1) \<Rightarrow>
                     (Inr newScopeId,
                      w1\<lparr>scopeMap := mapSet (scopeMap w1) projectRoot newScopeId\<rparr>)))"

section \<open>\<open>utils/language.ts\<close>\<close>

definition detectLanguage :: "env \<Rightarrow> string \<Rightarrow> string" where
  "detectLanguage env filePath =
     (let ext = toLowerCase env (extname env filePath)
      in strOrElse
           (map_of
              [(''.js'', ''javascript''), (''.jsx'', ''javascript''), (''.ts'', ''typescript''),
               (''.tsx'', ''typescript''), (''.py'', ''python''), (''.java'', ''java''),
               (''.go'', ''go''), (''.php'', ''php''), (''.rb'', ''ruby''),
               (''.html'', ''html''), (''.css'', ''css''), (''.xml'', ''xml'')] ext)
           ''unknown'')"

definition languageToEnum :: "env \<Rightarrow> string \<Rightarrow> string" where
  "languageToEnum env language =
     strOrElse
       (map_of
          [(''javascript'', ''JS''), (''typescript'', ''TS''), (''python'', ''PYTHON''),
           (''java'', ''JAVA''), (''go'', ''GO''), (''php'', ''PHP''), (''ruby'', ''RUBY''),
           (''html'', ''HTML''), (''css'', ''CSS''), (''xml'', ''XML'')] language)
       (toUpperCase env language)"

section \<open>\<open>utils/filesystem.ts\<close>: cache invalidation\<close>

text \<open>The reverse lookup: the first root of \<open>scopeMap\<close> bound to the scope id.\<close>

definition rootOfScope :: "(string \<times> string) list \<Rightarrow> string \<Rightarrow> string option" where
  "rootOfScope m sid = map_option fst (find (\<lambda>entry. snd entry = sid) m)"

text \<open>The \<open>try\<close> block of \<open>notifyFileSystemChanged\<close>.\<close>

definition notifyBody ::
  "env \<Rightarrow> world \<Rightarrow> string \<Rightarrow> string \<Rightarrow> string \<Rightarrow> string \<Rightarrow> (error + unit) \<times> world" where
  "notifyBody env w filePath scopeId fileUri relativePath =
     (case ensureSloopBridge env w of
        (Inl e, w1) \<Rightarrow> (Inl e, w1)
      | (Inr _, w1) \<Rightarrow>
          (let language = detectLanguage env filePath;
               languageEnum = languageToEnum env language
           in case bridgeCall env w1 (DidOpenFile scopeId fileUri) of
                (Inl e, w2) \<Rightarrow> (Inl e, w2)
              | (Inr _, w2) \<Rightarrow>
                  (case readFileSync w2 filePath of
                     Inl e \<Rightarrow> (Inl e, w2)
                   | Inr fileContent \<Rightarrow>
                       bridgeCall env w2
                         (DidUpdateFileSystem []
                            [\<lparr>uri = fileUri, ideRelativePath = relativePath,
                              configScopeId = scopeId, charset = ''UTF-8'',
                              fsPath = filePath, dtoContent = fileContent,
                              detectedLanguage = languageEnum, isUserDefined = True\<rparr>]
                            []))))"

definition notifyFileSystemChanged ::
  "env \<Rightarrow> world \<Rightarrow> string \<Rightarrow> string \<Rightarrow> (error + unit) \<times> world" where
  "notifyFileSystemChanged env w filePath scopeId =
     (let fileUri = ''file://'' @ filePath;
          projectRoot = (case truthy (rootOfScope (scopeMap w) scopeId) of
                           Some root \<Rightarrow> root
                         | None \<Rightarrow> dirname env filePath);
          relativePath = relative env projectRoot filePath
      in case notifyBody env w filePath scopeId fileUri relativePath of
           (Inl err, w') \<Rightarrow>
             (Inr (),
              logEvent w'
                (ConsoleError (''[FS] Failed to notify file system update for '' @ filePath) err))
         | (Inr _, w') \<Rightarrow> (Inr (), w'))"

section \<open>\<open>tools/apply-all-quick-fixes.ts\<close>\<close>

text \<open>The predicate of the filter: \<open>issue.quickFixes && issue.quickFixes.length > 0\<close>.\<close>

definition hasQuickFixes :: "raw_issue \<Rightarrow> bool" where
  "hasQuickFixes issue = (case quickFixes issue of None \<Rightarrow> False | Some qs \<Rightarrow> 0 < length qs)"

text \<open>\<open>issue.textRange?.startLine || issue.startLine || 0\<close>.\<close>

definition issueLine :: "raw_issue \<Rightarrow> nat" where
  "issueLine issue =
     orElse (optField (textRange issue) startLine) (orElse (issueStartLine issue) 0)"

text \<open>The comparator of the outer sort: \<open>bLine - aLine\<close>.\<close>

definition compareIssues :: "raw_issue \<Rightarrow> raw_issue \<Rightarrow> int" where
  "compareIssues a b = int (issueLine b) - int (issueLine a)"

text \<open>\<open>issue.quickFixes[0]\<close>; undefined when there is none.\<close>

definition firstQuickFix :: "raw_issue \<Rightarrow> quick_fix option" where
  "firstQuickFix issue =
     (case quickFixes issue of None \<Rightarrow> None | Some [] \<Rightarrow> None | Some (q # _) \<Rightarrow> Some q)"

record applied_fix =
  fix_line :: nat
  fix_rule :: string
  fix_message :: string

record failed_fix =
  fail_line :: nat
  fail_rule :: string
  fail_error :: error

text \<open>
  The \<open>try\<close> block of the loop up to the write: read the file, apply the edits of the
  quick fix to the lines, write the file. It yields the message for \<open>appliedFixes\<close>.
  Reading a property of an undefined quick fix throws a \<open>TypeError\<close>.
\<close>

definition applyQuickFixToFile ::
  "world \<Rightarrow> string \<Rightarrow> quick_fix option \<Rightarrow> (error + string) \<times> world" where
  "applyQuickFixToFile w filePath quickFix =
     (case readFileSync w filePath of
        Inl e \<Rightarrow> (Inl e, w)
      | Inr fileContent \<Rightarrow>
          (case quickFix of
             None \<Rightarrow> (Inl TypeError, w)
           | Some q \<Rightarrow>
               (case applyFileEdits (splitLines fileContent) (quickFixFileEdits q) of
                  Inl e \<Rightarrow> (Inl e, w)
                | Inr lines' \<Rightarrow>
                    (case writeFileSync w filePath (joinLines lines') of
                       (Inl e, w') \<Rightarrow> (Inl e, w')
                     | (Inr _, w') \<Rightarrow>
                         (Inr (strOrElse (message q) ''Applied automated fix''), w')))))"

text \<open>
  The loop over the sorted issues with its two result lists; the catch handler logs.
  \<open>issue.quickFixes[0]\<close> is read before the \<open>try\<close> block: on an issue without a
  \<open>quickFixes\<close> array it throws out of the loop, and the first component of the result
  is that error (the filter lets no such issue through).
\<close>

fun applyLoop ::
  "string \<Rightarrow> raw_issue list \<Rightarrow> world \<times> applied_fix list \<times> failed_fix list
     \<Rightarrow> error option \<times> world \<times> applied_fix list \<times> failed_fix list" where
  "applyLoop filePath [] st = (None, st)"
| "applyLoop filePath (issue # rest) (w, appliedFixes, failedFixes) =
     (case quickFixes issue of
        None \<Rightarrow> (Some TypeError, w, appliedFixes, failedFixes)
      | Some _ \<Rightarrow>
          (case applyQuickFixToFile w filePath (firstQuickFix issue) of
             (Inr msg, w') \<Rightarrow>
               applyLoop filePath rest
                 (w',
                  appliedFixes @ [\<lparr>fix_line = issueLine issue, fix_rule = ruleKey issue,
                                   fix_message = msg\<rparr>],
                  failedFixes)
           | (Inl err, w') \<Rightarrow>
               applyLoop filePath rest
                 (logEvent w' (ConsoleError ''[MCP] Failed to apply fix'' err),
                  appliedFixes,
                  failedFixes @ [\<lparr>fail_line = issueLine issue, fail_rule = ruleKey issue,
                                  fail_error = err\<rparr>])))"

text \<open>
  The result of the tool as data: the text of the answer is rendered from these fields
  (the rendering is not modelled).
\<close>

record report =
  reportFile :: string
  appliedFixes :: "applied_fix list"
  failedFixes :: "failed_fix list"
  remainingIssues :: "raw_issue list"

datatype apply_all_result =
    NoQuickFixesAvailable string nat
  | QuickFixesApplied report

text \<open>\<open>rawResult.rawIssues || []\<close>.\<close>

definition rawIssuesOrEmpty :: "raw_issue list option \<Rightarrow> raw_issue list" where
  "rawIssuesOrEmpty r = (case r of None \<Rightarrow> [] | Some xs \<Rightarrow> xs)"

definition handleApplyAllQuickFixes ::
  "env \<Rightarrow> world \<Rightarrow> string \<Rightarrow> (error + apply_all_result) \<times> world" where
  "handleApplyAllQuickFixes env w filePath =
     (if \<not> existsSync w filePath then (Inl (FileNotFound filePath), w)
      else case ensureSloopBridge env w of
        (Inl e, w1) \<Rightarrow> (Inl e, w1)
      | (Inr _, w1) \<Rightarrow>
      (case getOrCreateScope env w1 filePath of
        (Inl e, w2) \<Rightarrow> (Inl e, w2)
      | (Inr scopeId, w2) \<Rightarrow>
      (case analyzeFilesAndTrack env w2 scopeId [filePath] of
        (Inl e, w3) \<Rightarrow> (Inl e, w3)
      | (Inr rawResult, w3) \<Rightarrow>
      (let rawIssues = rawIssuesOrEmpty rawResult;
           issuesWithQuickFixes = filter hasQuickFixes rawIssues
       in if length issuesWithQuickFixes = 0
          then (Inr (NoQuickFixesAvailable filePath (length rawIssues)), w3)
          else
            (let sortedIssues = sortBy compareIssues issuesWithQuickFixes
             in case applyLoop filePath sortedIssues (w3, [], []) of
               (Some e, w4, applied, failed) \<Rightarrow> (Inl e, w4)
             | (None, w4, applied, failed) \<Rightarrow>
             (case notifyFileSystemChanged env w4 filePath scopeId of
               (Inl e, w5) \<Rightarrow> (Inl e, w5)
             | (Inr _, w5) \<Rightarrow>
             (case analyzeFilesAndTrack env (logEvent w5 (SetTimeout 500)) scopeId [filePath] of
               (Inl e, w6) \<Rightarrow> (Inl e, w6)
             | (Inr finalResult, w6) \<Rightarrow>
                 (Inr (QuickFixesApplied
                         \<lparr>reportFile = filePath, appliedFixes = applied,
                          failedFixes = failed,
                          remainingIssues = rawIssuesOrEmpty finalResult\<rparr>),
                  w6))))))))"

section \<open>\<open>tools/apply-quick-fix.ts\<close>\<close>

text \<open>
  The second half of \<open>handleApplyQuickFix\<close>, after the target issue and its first quick
  fix are found: dump the debug file, read the file, apply the edits, write the file,
  notify the backend, wait.
\<close>

definition applyQuickFixAndNotify ::
  "env \<Rightarrow> world \<Rightarrow> string \<Rightarrow> string \<Rightarrow> raw_issue \<Rightarrow> quick_fix \<Rightarrow> (error + string) \<times> world" where
  "applyQuickFixAndNotify env w3 filePath scopeId targetIssue quickFix =
     (case writeFileSync w3 ''/tmp/quickfix-debug.json'' (stringify env targetIssue) of
        (Inl e, w4) \<Rightarrow> (Inl e, w4)
      | (Inr _, w4) \<Rightarrow>
      (case readFileSync w4 filePath of
        Inl e \<Rightarrow> (Inl e, w4)
      | Inr fileContent \<Rightarrow>
      (case applyFileEdits (splitLines fileContent) (quickFixFileEdits quickFix) of
        Inl e \<Rightarrow> (Inl e, w4)
      | Inr lines' \<Rightarrow>
      (case writeFileSync w4 filePath (joinLines lines') of
        (Inl e, w5) \<Rightarrow> (Inl e, w5)
      | (Inr _, w5) \<Rightarrow>
      (case notifyFileSystemChanged env w5 filePath scopeId of
        (Inl e, w6) \<Rightarrow> (Inl e, w6)
      | (Inr _, w6) \<Rightarrow>
          (Inr (strOrElse (message quickFix) ''Applied automated fix''),
           logEvent w6 (SetTimeout 500)))))))"

definition handleApplyQuickFix ::
  "env \<Rightarrow> world \<Rightarrow> string \<Rightarrow> nat \<Rightarrow> string \<Rightarrow> (error + string) \<times> world" where
  "handleApplyQuickFix env w filePath line rule =
     (if \<not> existsSync w filePath then (Inl (FileNotFound filePath), w)
      else case ensureSloopBridge env w of
        (Inl e, w1) \<Rightarrow> (Inl e, w1)
      | (Inr _, w1) \<Rightarrow>
      (case getOrCreateScope env w1 filePath of
        (Inl e, w2) \<Rightarrow> (Inl e, w2)
      | (Inr scopeId, w2) \<Rightarrow>
      (case analyzeFilesAndTrack env w2 scopeId [filePath] of
        (Inl e, w3) \<Rightarrow> (Inl e, w3)
      | (Inr rawResult, w3) \<Rightarrow>
      (case find (\<lambda>issue. issueLine issue = line \<and> ruleKey issue = rule)
              (rawIssuesOrEmpty rawResult) of
        None \<Rightarrow> (Inl IssueNotFound, w3)
      | Some targetIssue \<Rightarrow>
      (case firstQuickFix targetIssue of
        None \<Rightarrow> (Inl NoQuickFixAvailable, w3)
      | Some quickFix \<Rightarrow>
          applyQuickFixAndNotify env w3 filePath scopeId targetIssue quickFix)))))"

section \<open>Derived readings used to state the properties\<close>

text \<open>
  The edit list of a quick fix, as \<open>transformSloopIssues\<close> of \<open>utils/transforms.ts\<close>
  flattens it: the text edits of all its file edits, in order.
\<close>

definition quickFixEdits :: "quick_fix \<Rightarrow> text_edit list" where
  "quickFixEdits q =
     concat (map (\<lambda>fe. case textEdits fe of None \<Rightarrow> [] | Some es \<Rightarrow> es) (quickFixFileEdits q))"

text \<open>
  The numbers the summary prints after \<open>Applied:\<close> and \<open>Failed:\<close>; the answer
  \<open>No quick fixes available\<close> has neither list.
\<close>

definition appliedCount :: "apply_all_result \<Rightarrow> nat" where
  "appliedCount r =
     (case r of NoQuickFixesAvailable _ _ \<Rightarrow> 0 | QuickFixesApplied rep \<Rightarrow> length (appliedFixes rep))"

definition failedCount :: "apply_all_result \<Rightarrow> nat" where
  "failedCount r =
     (case r of NoQuickFixesAvailable _ _ \<Rightarrow> 0 | QuickFixesApplied rep \<Rightarrow> length (failedFixes rep))"

text \<open>
  The first quick fixes of a list of issues applied one after the other, each \<open>try\<close> block
  of the loop running to its end: the world then reached, or nothing as soon as one of
  them throws. It is the reading of "all these fixes succeed" in the properties below.
\<close>

fun applyEach :: "string \<Rightarrow> raw_issue list \<Rightarrow> world \<Rightarrow> world option" where
  "applyEach filePath [] w = Some w"
| "applyEach filePath (issue # rest) w =
     (case applyQuickFixToFile w filePath (firstQuickFix issue) of
        (Inr _, w') \<Rightarrow> applyEach filePath rest w'
      | (Inl _, _) \<Rightarrow> None)"

section \<open>A worked example\<close>

text \<open>
  The end-to-end example of the specification: a file of 15 lines with fixable issues at
  lines 3, 4 and 5 (\<open>var\<close> to \<open>const\<close>), 7 (a loop) and 11 (a redundant \<open>return\<close>).
  The quick fix of the issue at line 7 is malformed: its edit addresses line 70.
\<close>

definition demoPath :: string where
  "demoPath = ''/proj/demo.js''"

definition demoLines :: "string list" where
  "demoLines =
     [''function f(xs) {'', ''  g();'', ''  var a = 1;'', ''  var b = 2;'', ''  var c = 3;'',
      ''  h(a, b, c);'', ''  for (;;) {}'', ''  m();'', ''  n();'', ''  o();'',
      ''  return;'', ''}'', [], ''f([]);'', ''// end'']"

definition demoIssue :: "string \<Rightarrow> nat \<Rightarrow> nat \<Rightarrow> nat \<Rightarrow> nat \<Rightarrow> string \<Rightarrow> raw_issue" where
  "demoIssue rule line editLine fromCol toCol txt =
     \<lparr>ruleKey = rule,
      textRange = Some \<lparr>startLine = Some line, startLineOffset = Some fromCol,
                        endLine = Some line, endLineOffset = Some toCol\<rparr>,
      issueStartLine = None,
      quickFixes = Some
        [\<lparr>message = Some ''Fix'',
          inputFileEdits = Some
            [\<lparr>textEdits = Some
               [\<lparr>edit_range = Some \<lparr>startLine = Some editLine, startLineOffset = Some fromCol,
                                     endLine = Some editLine, endLineOffset = Some toCol\<rparr>,
                 newText = Some txt\<rparr>]\<rparr>],
          fileEdits = None\<rparr>]\<rparr>"

definition demoIssues :: "raw_issue list" where
  "demoIssues =
     [demoIssue ''javascript:S3504'' 3 3 2 5 ''const'',
      demoIssue ''javascript:S3504'' 4 4 2 5 ''const'',
      demoIssue ''javascript:S3504'' 5 5 2 5 ''const'',
      demoIssue ''javascript:S4138'' 7 70 2 5 ''xs.forEach'',
      demoIssue ''javascript:S3626'' 11 11 2 9 []]"

definition demoWorld :: "string \<Rightarrow> world" where
  "demoWorld text =
     \<lparr>files = [demoPath \<mapsto> \<lparr>content = text, readable = True, writable = True\<rparr>],
      canCreate = (\<lambda>p. True),
      scopeMap = [],
      sloopBridge = False,
      trace = []\<rparr>"

text \<open>
  An outside for the example: the first analysis reports the given issues, a later one
  none; \<open>notifyOk\<close> tells whether the two notifications go through.
\<close>

definition isAnalyze :: "event \<Rightarrow> bool" where
  "isAnalyze ev = (case ev of AnalyzeFilesAndTrack _ _ \<Rightarrow> True | _ \<Rightarrow> False)"

definition isNotification :: "event \<Rightarrow> bool" where
  "isNotification ev =
     (case ev of DidOpenFile _ _ \<Rightarrow> True | DidUpdateFileSystem _ _ _ \<Rightarrow> True | _ \<Rightarrow> False)"

definition demoEnv :: "raw_issue list \<Rightarrow> bool \<Rightarrow> env" where
  "demoEnv issues notifyOk =
     \<lparr>dirname = (\<lambda>p. ''/proj''),
      relative = (\<lambda>root p. ''demo.js''),
      extname = (\<lambda>p. ''.js''),
      toLowerCase = (\<lambda>s. s),
      toUpperCase = (\<lambda>s. s),
      md5hex = (\<lambda>s. ''0123456789abcdef0123456789abcdef''),
      stringify = (\<lambda>i. ''{}''),
      pluginsInstalled = True,
      connectOk = True,
      callOk = (\<lambda>t. case rev t of [] \<Rightarrow> True | ev # _ \<Rightarrow> \<not> isNotification ev \<or> notifyOk),
      rawIssuesOf = (\<lambda>t fs. if length (filter isAnalyze t) \<le> 1 then Some issues else Some [])\<rparr>"

section \<open>Properties of the edit applier\<close>

lemmas edit_defs = applyTextEdit_def editStartLine_def editStartCol_def editEndLine_def
      editEndCol_def editNewText_def orElse_def optField_def strOrElse_def
      substringTo_def substringFrom_def lineLength_def splice_def

lemma applyTextEdit_same_line:
  assumes "editStartLine edit = editEndLine edit" and "editStartLine edit < length lines"
  shows "applyTextEdit lines edit =
     Inr (lines[editStartLine edit :=
            take (editStartCol edit) (lines ! editStartLine edit) @ editNewText edit
              @ drop (editEndCol lines edit) (lines ! editStartLine edit)])"
  using assms by (simp add: applyTextEdit_def Let_def substringTo_def substringFrom_def)

lemma explicit_cols:
  assumes "edit_range edit = Some r" and "startLineOffset r = Some sc" and "0 < sc"
    and "endLineOffset r = Some ec" and "0 < ec"
  shows "editStartCol edit = sc" and "editEndCol lines edit = ec"
  using assms by (simp_all add: editStartCol_def editEndCol_def optField_def orElse_def)

text \<open>
  C3. A same-line edit with explicit nonzero column offsets on an existing line replaces
  the column span of that line by the replacement text: the new line is the part before
  \<open>startCol\<close>, the replacement, and the part from \<open>endCol\<close> on. The buffer keeps its
  length and every other line. The two examples of the specification are instances:
  columns 2 to 5 of \<open>"  var x = 1;"\<close> replaced by \<open>"const"\<close>, and columns 2 to 9 of
  \<open>"  return;"\<close> replaced by the empty text, the neighbouring lines untouched.
\<close>

theorem same_line_edit_replaces_span:
  "(\<forall>lines edit r sc ec.
      edit_range edit = Some r \<and> startLineOffset r = Some sc \<and> 0 < sc
      \<and> endLineOffset r = Some ec \<and> 0 < ec
      \<and> editStartLine edit = editEndLine edit \<and> editStartLine edit < length lines \<longrightarrow>
      applyTextEdit lines edit =
        Inr (lines[editStartLine edit :=
               take sc (lines ! editStartLine edit) @ editNewText edit
                 @ drop ec (lines ! editStartLine edit)])
      \<and> (\<forall>lines'. applyTextEdit lines edit = Inr lines' \<longrightarrow>
            length lines' = length lines
            \<and> (\<forall>i < length lines. i \<noteq> editStartLine edit \<longrightarrow> lines' ! i = lines ! i)))
   \<and> applyTextEdit [''function f() {'', ''  var x = 1;'', ''}'']
        \<lparr>edit_range = Some \<lparr>startLine = Some 2, startLineOffset = Some 2,
                             endLine = Some 2, endLineOffset = Some 5\<rparr>,
         newText = Some ''const''\<rparr>
      = Inr [''function f() {'', ''  const x = 1;'', ''}'']
   \<and> applyTextEdit [''function f() {'', ''  return;'', ''}'']
        \<lparr>edit_range = Some \<lparr>startLine = Some 2, startLineOffset = Some 2,
                             endLine = Some 2, endLineOffset = Some 9\<rparr>,
         newText = Some []\<rparr>
      = Inr [''function f() {'', ''  '', ''}'']"
proof (intro conjI allI impI)
  fix lines :: "string list" and edit r sc ec
  assume a: "edit_range edit = Some r \<and> startLineOffset r = Some sc \<and> 0 < sc
      \<and> endLineOffset r = Some ec \<and> 0 < ec
      \<and> editStartLine edit = editEndLine edit \<and> editStartLine edit < length lines"
  then have c: "editStartCol edit = sc" "editEndCol lines edit = ec"
    using explicit_cols [of edit r sc ec] by simp_all
  from a show r: "applyTextEdit lines edit =
        Inr (lines[editStartLine edit :=
               take sc (lines ! editStartLine edit) @ editNewText edit
                 @ drop ec (lines ! editStartLine edit)])"
    using applyTextEdit_same_line [of edit lines] by (simp add: c)
  fix lines'
  assume "applyTextEdit lines edit = Inr lines'"
  with r have l': "lines' = lines[editStartLine edit :=
               take sc (lines ! editStartLine edit) @ editNewText edit
                 @ drop ec (lines ! editStartLine edit)]"
    by simp
  show "length lines' = length lines" by (simp add: l')
  fix i
  assume "i < length lines" "i \<noteq> editStartLine edit"
  then show "lines' ! i = lines ! i" by (simp add: l')
next
  show "applyTextEdit [''function f() {'', ''  var x = 1;'', ''}'']
        \<lparr>edit_range = Some \<lparr>startLine = Some 2, startLineOffset = Some 2,
                             endLine = Some 2, endLineOffset = Some 5\<rparr>,
         newText = Some ''const''\<rparr>
      = Inr [''function f() {'', ''  const x = 1;'', ''}'']"
    by (simp add: edit_defs Let_def)
next
  show "applyTextEdit [''function f() {'', ''  return;'', ''}'']
        \<lparr>edit_range = Some \<lparr>startLine = Some 2, startLineOffset = Some 2,
                             endLine = Some 2, endLineOffset = Some 9\<rparr>,
         newText = Some []\<rparr>
      = Inr [''function f() {'', ''  '', ''}'']"
    by (simp add: edit_defs Let_def)
qed

theorem same_line_edit_replaces_span_witness:
  "editStartLine \<lparr>edit_range = Some \<lparr>startLine = Some 2, startLineOffset = Some 2,
                                      endLine = None, endLineOffset = Some 5\<rparr>,
                   newText = Some ''let''\<rparr> = 1
   \<and> editEndLine \<lparr>edit_range = Some \<lparr>startLine = Some 2, startLineOffset = Some 2,
                                      endLine = None, endLineOffset = Some 5\<rparr>,
                   newText = Some ''let''\<rparr> = 1
   \<and> applyTextEdit [''a'', ''  var x = 1;'']
        \<lparr>edit_range = Some \<lparr>startLine = Some 2, startLineOffset = Some 2,
                             endLine = None, endLineOffset = Some 5\<rparr>,
         newText = Some ''let''\<rparr>
      = Inr [''a'', ''  let x = 1;'']"
proof -
  let ?r = "\<lparr>startLine = Some 2, startLineOffset = Some 2,
              endLine = None, endLineOffset = Some (5::nat)\<rparr>"
  let ?e = "\<lparr>edit_range = Some ?r, newText = Some ''let''\<rparr>"
  let ?ls = "[''a'', ''  var x = 1;'']"
  have sl: "editStartLine ?e = 1" "editEndLine ?e = 1"
    by (simp_all add: editStartLine_def editEndLine_def orElse_def optField_def)
  have nt: "editNewText ?e = ''let''"
    by (simp add: editNewText_def strOrElse_def)
  have "applyTextEdit ?ls ?e = Inr (?ls[editStartLine ?e :=
               take 2 (?ls ! editStartLine ?e) @ editNewText ?e
                 @ drop 5 (?ls ! editStartLine ?e)])"
    using same_line_edit_replaces_span [THEN conjunct1, rule_format, of ?e ?r 2 5 ?ls]
    by (simp only: sl text_edit.simps text_range.simps list.size) simp
  then show ?thesis by (simp add: sl nt)
qed







section \<open>Properties of the edit planner\<close>

lemma insertBy_insort_key:
  assumes "\<And>a b. cmp a b = int (key b) - int (key a)"
  shows "insertBy cmp x ys = insort_key (\<lambda>i. - int (key i)) x ys"
  by (induction ys) (simp_all add: assms)

lemma sortBy_sort_key:
  assumes "\<And>a b. cmp a b = int (key b) - int (key a)"
  shows "sortBy cmp xs = sort_key (\<lambda>i. - int (key i)) xs"
proof -
  have "insertBy cmp = insort_key (\<lambda>i. - int (key i))"
    using insertBy_insort_key [of cmp key, OF assms] by (intro ext)
  then show ?thesis by (simp add: sortBy_def sort_key_def)
qed

lemma sortBy_compareIssues:
  "sortBy compareIssues xs = sort_key (\<lambda>i. - int (issueLine i)) xs"
  by (rule sortBy_sort_key) (simp add: compareIssues_def)

lemma hasQuickFixes_iff: "hasQuickFixes i \<longleftrightarrow> (\<exists>q qs. quickFixes i = Some (q # qs))"
  by (cases "quickFixes i") (auto simp: hasQuickFixes_def neq_Nil_conv)

lemma set_sortBy_compareIssues: "set (sortBy compareIssues xs) = set xs"
  by (simp add: sortBy_compareIssues)

lemma sorted_desc_sortBy_compareIssues:
  "sorted_wrt (\<lambda>a b. issueLine b \<le> issueLine a) (sortBy compareIssues xs)"
proof -
  have "sorted (map (\<lambda>i. - int (issueLine i)) (sortBy compareIssues xs))"
    by (simp add: sortBy_compareIssues)
  then show ?thesis
    by (simp add: sorted_map sorted_wrt_iff_nth_less)
qed

lemma stable_sortBy_compareIssues:
  "filter (\<lambda>i. issueLine i = k) (sortBy compareIssues xs) = filter (\<lambda>i. issueLine i = k) xs"
proof -
  have "filter (\<lambda>i. - int (issueLine i) = - int k) (sort_key (\<lambda>i. - int (issueLine i)) xs)
      = filter (\<lambda>i. - int (issueLine i) = - int k) xs"
    by (rule sort_key_stable)
  then show ?thesis by (simp add: sortBy_compareIssues)
qed

text \<open>
  C1, as stated, fails: the filter looks at the quick-fix list only. An issue whose only
  quick fix has no edits at all passes the filter and is planned.
\<close>

theorem filter_ignores_edit_list_counterexample:
  "hasQuickFixes
     \<lparr>ruleKey = ''javascript:S1481'',
      textRange = Some \<lparr>startLine = Some 5, startLineOffset = None, endLine = None, endLineOffset = None\<rparr>,
      issueStartLine = None,
      quickFixes = Some [\<lparr>message = Some ''Remove unused variable'', inputFileEdits = None, fileEdits = Some []\<rparr>]\<rparr>
   \<and> quickFixEdits \<lparr>message = Some ''Remove unused variable'', inputFileEdits = None, fileEdits = Some []\<rparr> = []
   \<and> sortBy compareIssues (filter hasQuickFixes
       [\<lparr>ruleKey = ''javascript:S1481'',
         textRange = Some \<lparr>startLine = Some 5, startLineOffset = None, endLine = None, endLineOffset = None\<rparr>,
         issueStartLine = None,
         quickFixes = Some [\<lparr>message = Some ''Remove unused variable'', inputFileEdits = None, fileEdits = Some []\<rparr>]\<rparr>])
     = [\<lparr>ruleKey = ''javascript:S1481'',
         textRange = Some \<lparr>startLine = Some 5, startLineOffset = None, endLine = None, endLineOffset = None\<rparr>,
         issueStartLine = None,
         quickFixes = Some [\<lparr>message = Some ''Remove unused variable'', inputFileEdits = None, fileEdits = Some []\<rparr>]\<rparr>]"
  by (simp add: hasQuickFixes_def quickFixEdits_def quickFixFileEdits_def sortBy_def)

text \<open>
  C1, amended. The planned application order holds exactly the issues of the analysis
  whose quick-fix list is present and nonempty; the edit list of the fix plays no part.
\<close>

theorem filter_selects_nonempty_quick_fix_list:
  "i \<in> set (sortBy compareIssues (filter hasQuickFixes issues))
     \<longleftrightarrow> i \<in> set issues \<and> (\<exists>q qs. quickFixes i = Some (q # qs))"
  by (simp add: sortBy_compareIssues hasQuickFixes_iff)

text \<open>
  C2. The planned order is a stable descending sort by start line: it is a permutation
  of the filtered issues, start lines never increase along it, and issues with the same
  start line keep their input order. An issue without a resolvable position counts as
  line 0, and only issues of line 0 come after an issue of line 0. Issues with start
  lines 5, 15, 10, 3 are planned in the order 15, 10, 5, 3.
\<close>

theorem plan_order_stable_descending:
  "mset (sortBy compareIssues issues) = mset issues
   \<and> sorted_wrt (\<lambda>a b. issueLine b \<le> issueLine a) (sortBy compareIssues issues)
   \<and> (\<forall>k. filter (\<lambda>i. issueLine i = k) (sortBy compareIssues issues)
           = filter (\<lambda>i. issueLine i = k) issues)
   \<and> (\<forall>i. (optField (textRange i) startLine = None \<or> optField (textRange i) startLine = Some 0)
          \<and> (issueStartLine i = None \<or> issueStartLine i = Some 0) \<longrightarrow> issueLine i = 0)
   \<and> (\<forall>i before after. sortBy compareIssues issues = before @ i # after \<and> issueLine i = 0
          \<longrightarrow> (\<forall>j \<in> set after. issueLine j = 0))
   \<and> (\<forall>a b c d. issueLine a = 5 \<and> issueLine b = 15 \<and> issueLine c = 10 \<and> issueLine d = 3
          \<longrightarrow> sortBy compareIssues [a, b, c, d] = [b, c, a, d])"
proof (intro conjI allI impI ballI)
  show "mset (sortBy compareIssues issues) = mset issues"
    by (simp add: sortBy_compareIssues)
  show "sorted_wrt (\<lambda>a b. issueLine b \<le> issueLine a) (sortBy compareIssues issues)"
    by (rule sorted_desc_sortBy_compareIssues)
  show "filter (\<lambda>i. issueLine i = k) (sortBy compareIssues issues)
           = filter (\<lambda>i. issueLine i = k) issues" for k
    by (rule stable_sortBy_compareIssues)
  show "issueLine i = 0"
    if "(optField (textRange i) startLine = None \<or> optField (textRange i) startLine = Some 0)
          \<and> (issueStartLine i = None \<or> issueStartLine i = Some 0)" for i
    using that by (auto simp: issueLine_def orElse_def)
  show "issueLine j = 0"
    if "sortBy compareIssues issues = before @ i # after \<and> issueLine i = 0" "j \<in> set after"
    for i before after j
  proof -
    have "sorted_wrt (\<lambda>a b. issueLine b \<le> issueLine a) (before @ i # after)"
      using sorted_desc_sortBy_compareIssues [of issues] that(1) by simp
    then have "issueLine j \<le> issueLine i"
      using that(2) by (simp add: sorted_wrt_append)
    then show ?thesis using that(1) by simp
  qed
  show "sortBy compareIssues [a, b, c, d] = [b, c, a, d]"
    if "issueLine a = 5 \<and> issueLine b = 15 \<and> issueLine c = 10 \<and> issueLine d = 3"
    for a b c d
    using that by (simp add: sortBy_def compareIssues_def)
qed

theorem plan_order_stable_descending_witness:
  "sortBy compareIssues
     [\<lparr>ruleKey = ''A'', textRange = None, issueStartLine = None, quickFixes = None\<rparr>,
      \<lparr>ruleKey = ''B'', textRange = None, issueStartLine = Some 5, quickFixes = None\<rparr>,
      \<lparr>ruleKey = ''C'', textRange = None, issueStartLine = None, quickFixes = None\<rparr>]
   = [\<lparr>ruleKey = ''B'', textRange = None, issueStartLine = Some 5, quickFixes = None\<rparr>]
     @ \<lparr>ruleKey = ''A'', textRange = None, issueStartLine = None, quickFixes = None\<rparr>
     # [\<lparr>ruleKey = ''C'', textRange = None, issueStartLine = None, quickFixes = None\<rparr>]
   \<and> issueLine \<lparr>ruleKey = ''A'', textRange = None, issueStartLine = None, quickFixes = None\<rparr> = 0
   \<and> issueLine \<lparr>ruleKey = ''C'', textRange = None, issueStartLine = None, quickFixes = None\<rparr> = 0"
proof -
  let ?a = "\<lparr>ruleKey = ''A'', textRange = None, issueStartLine = None, quickFixes = None\<rparr>"
  let ?b = "\<lparr>ruleKey = ''B'', textRange = None, issueStartLine = Some (5::nat), quickFixes = None\<rparr>"
  let ?c = "\<lparr>ruleKey = ''C'', textRange = None, issueStartLine = None, quickFixes = None\<rparr>"
  have la: "issueLine ?a = 0" and lb: "issueLine ?b = 5"
    by (simp_all add: issueLine_def optField_def orElse_def)
  have s: "sortBy compareIssues [?a, ?b, ?c] = [?b] @ ?a # [?c]"
    by (simp add: sortBy_def compareIssues_def issueLine_def optField_def orElse_def)
  have "\<forall>i before after.
          sortBy compareIssues [?a, ?b, ?c] = before @ i # after \<and> issueLine i = 0
          \<longrightarrow> (\<forall>j \<in> set after. issueLine j = 0)"
    using plan_order_stable_descending [of "[?a, ?b, ?c]"] by blast
  then have "\<forall>j \<in> set [?c]. issueLine j = 0"
    using s la by blast
  then show ?thesis using s la by simp
qed

section \<open>Properties of the apply-all loop\<close>

lemma logEvent_frame [simp]:
  "files (logEvent w ev) = files w"
  "canCreate (logEvent w ev) = canCreate w"
  "scopeMap (logEvent w ev) = scopeMap w"
  "sloopBridge (logEvent w ev) = sloopBridge w"
  "trace (logEvent w ev) = trace w @ [ev]"
  by (simp_all add: logEvent_def)

lemma bridgeCall_iff:
  "bridgeCall env w ev = (r, w') \<longleftrightarrow>
     w' = logEvent w ev
     \<and> r = (if callOk env (trace w @ [ev]) then Inr () else Inl BackendError)"
  by (auto simp: bridgeCall_def Let_def)

lemma ensureSloopBridge_frame:
  "ensureSloopBridge env w = (r, w') \<Longrightarrow>
     files w' = files w \<and> canCreate w' = canCreate w \<and> scopeMap w' = scopeMap w
     \<and> (r = Inr () \<longrightarrow> sloopBridge w')
     \<and> (r = Inr () \<or> r = Inl BackendNotFound \<or> r = Inl BackendInitFailed)
     \<and> (trace w' = trace w \<or> trace w' = trace w @ [Connect])"
  by (auto simp: ensureSloopBridge_def split: if_splits)

lemma analyzeFilesAndTrack_frame:
  "analyzeFilesAndTrack env w sid ps = (r, w') \<Longrightarrow>
     w' = logEvent w (AnalyzeFilesAndTrack sid ps)
     \<and> (r = Inl BackendError \<or> r = Inr (rawIssuesOf env (trace w') (files w)))"
  by (auto simp: analyzeFilesAndTrack_def bridgeCall_iff split: prod.splits sum.splits if_splits)

lemma getOrCreateScope_frame:
  "getOrCreateScope env w p = (r, w') \<Longrightarrow>
     files w' = files w \<and> canCreate w' = canCreate w \<and> sloopBridge w' = sloopBridge w
     \<and> (r = Inl BackendError \<or> (\<exists>sid. r = Inr sid))
     \<and> (trace w' = trace w \<or> (\<exists>sid name. trace w' = trace w @ [AddConfigurationScope sid name]))"
  by (auto simp: getOrCreateScope_def Let_def bridgeCall_iff
      split: option.splits prod.splits sum.splits if_splits)

lemma readFileSync_error:
  "readFileSync w p = Inl e \<Longrightarrow> \<exists>s. e = IOError s"
  by (auto simp: readFileSync_def split: option.splits if_splits)

lemma readFileSync_cong:
  "files w' = files w \<Longrightarrow> readFileSync w' p = readFileSync w p"
  by (simp add: readFileSync_def)

lemma writeFileSync_error:
  "writeFileSync w p c = (Inl e, w') \<Longrightarrow>
     w' = logEvent w (WriteFile p c) \<and> (\<exists>s. e = IOError s)"
  by (auto simp: writeFileSync_def Let_def split: option.splits if_splits)

lemma writeFileSync_frame:
  "writeFileSync w p c = (r, w') \<Longrightarrow>
    canCreate w' = canCreate w \<and> scopeMap w' = scopeMap w
    \<and> sloopBridge w' = sloopBridge w \<and> trace w' = trace w @ [WriteFile p c]
    \<and> (\<forall>q. q \<noteq> p \<longrightarrow> files w' q = files w q)"
  by (auto simp: writeFileSync_def Let_def split: option.splits if_splits)

lemma writeFileSync_cong:
  assumes "files w1 = files w2" and "canCreate w1 = canCreate w2"
  shows "fst (writeFileSync w1 p c) = fst (writeFileSync w2 p c)
     \<and> files (snd (writeFileSync w1 p c)) = files (snd (writeFileSync w2 p c))
     \<and> canCreate (snd (writeFileSync w1 p c)) = canCreate (snd (writeFileSync w2 p c))"
  using assms by (auto simp: writeFileSync_def Let_def split: option.splits if_splits)

lemma notifyBody_frame:
  "notifyBody env w p sid u rel = (r, w') \<Longrightarrow>
     files w' = files w \<and> canCreate w' = canCreate w \<and> scopeMap w' = scopeMap w"
  by (auto simp: notifyBody_def Let_def bridgeCall_iff split: sum.splits prod.splits if_splits
      dest: ensureSloopBridge_frame)

lemma notifyFileSystemChanged_frame:
  "notifyFileSystemChanged env w p sid = (r, w') \<Longrightarrow>
     r = Inr () \<and> files w' = files w \<and> canCreate w' = canCreate w \<and> scopeMap w' = scopeMap w"
  by (auto simp: notifyFileSystemChanged_def Let_def split: sum.splits prod.splits
      dest: notifyBody_frame)


lemma applyQuickFixToFile_fail:
  "applyQuickFixToFile w p q = (Inl e, w') \<Longrightarrow>
     files w' = files w \<and> canCreate w' = canCreate w"
  by (auto simp: applyQuickFixToFile_def split: sum.splits option.splits prod.splits
      dest!: writeFileSync_error)

lemma applyQuickFixToFile_cong:
  assumes "files w1 = files w2" and "canCreate w1 = canCreate w2"
  shows "fst (applyQuickFixToFile w1 p q) = fst (applyQuickFixToFile w2 p q)
     \<and> files (snd (applyQuickFixToFile w1 p q)) = files (snd (applyQuickFixToFile w2 p q))
     \<and> canCreate (snd (applyQuickFixToFile w1 p q)) = canCreate (snd (applyQuickFixToFile w2 p q))"
proof -
  have r: "readFileSync w1 p = readFileSync w2 p"
    using assms by (simp add: readFileSync_def)
  show ?thesis
  proof (cases "readFileSync w2 p")
    case (Inl e)
    then show ?thesis using r assms by (simp add: applyQuickFixToFile_def)
  next
    case (Inr fileContent)
    show ?thesis
    proof (cases q)
      case None
      then show ?thesis using r Inr assms by (simp add: applyQuickFixToFile_def)
    next
      case (Some qf)
      show ?thesis
      proof (cases "applyFileEdits (splitLines fileContent) (quickFixFileEdits qf)")
        case (Inl e)
        then show ?thesis using r Inr Some assms by (simp add: applyQuickFixToFile_def)
      next
        case (Inr lines')
        note wc = writeFileSync_cong [OF assms, of p "joinLines lines'"]
        show ?thesis
          using r \<open>readFileSync w2 p = Inr fileContent\<close> Some Inr wc
          by (cases "writeFileSync w1 p (joinLines lines')";
              cases "writeFileSync w2 p (joinLines lines')")
             (auto simp: applyQuickFixToFile_def split: sum.splits)
      qed
    qed
  qed
qed

lemma hasQuickFixes_Some: "hasQuickFixes i \<Longrightarrow> \<exists>qs. quickFixes i = Some qs"
  by (cases "quickFixes i") (simp_all add: hasQuickFixes_def)

lemma applyLoop_step_failed:
  assumes "hasQuickFixes issue"
    and "applyQuickFixToFile w p (firstQuickFix issue) = (Inl e, w')"
  shows "applyLoop p (issue # rest) (w, a, f)
     = applyLoop p rest
         (logEvent w' (ConsoleError ''[MCP] Failed to apply fix'' e), a,
          f @ [\<lparr>fail_line = issueLine issue, fail_rule = ruleKey issue, fail_error = e\<rparr>])"
  using assms hasQuickFixes_Some [OF assms(1)] by auto

lemma applyLoop_step_applied:
  assumes "hasQuickFixes issue"
    and "applyQuickFixToFile w p (firstQuickFix issue) = (Inr msg, w')"
  shows "applyLoop p (issue # rest) (w, a, f)
     = applyLoop p rest
         (w', a @ [\<lparr>fix_line = issueLine issue, fix_rule = ruleKey issue, fix_message = msg\<rparr>], f)"
  using assms hasQuickFixes_Some [OF assms(1)] by auto

lemma applyLoop_counts:
  assumes "\<forall>i \<in> set xs. hasQuickFixes i"
  shows "\<exists>w' a' f'. applyLoop p xs (w, a, f) = (None, w', a', f')
           \<and> length a' + length f' = length a + length f + length xs"
  using assms
proof (induction xs arbitrary: w a f)
  case Nil
  then show ?case by simp
next
  case (Cons x xs)
  then have hx: "hasQuickFixes x" and rest: "\<forall>i \<in> set xs. hasQuickFixes i" by simp_all
  obtain r w1 where s: "applyQuickFixToFile w p (firstQuickFix x) = (r, w1)"
    by (cases "applyQuickFixToFile w p (firstQuickFix x)")
  show ?case
  proof (cases r)
    case (Inl e)
    from Cons.IH [OF rest, of "logEvent w1 (ConsoleError ''[MCP] Failed to apply fix'' e)" a
        "f @ [\<lparr>fail_line = issueLine x, fail_rule = ruleKey x, fail_error = e\<rparr>]"]
    show ?thesis using applyLoop_step_failed [OF hx, of w p e w1 xs a f] s Inl by auto
  next
    case (Inr msg)
    from Cons.IH [OF rest, of w1
        "a @ [\<lparr>fix_line = issueLine x, fix_rule = ruleKey x, fix_message = msg\<rparr>]" f]
    show ?thesis using applyLoop_step_applied [OF hx, of w p msg w1 xs a f] s Inr by auto
  qed
qed

lemma applyLoop_append:
  assumes "\<forall>i \<in> set xs. hasQuickFixes i"
  shows "applyLoop p (xs @ ys) st = applyLoop p ys (snd (applyLoop p xs st))"
  using assms
proof (induction xs arbitrary: st)
  case Nil
  show ?case by simp
next
  case (Cons x xs)
  then have hx: "hasQuickFixes x" and rest: "\<forall>i \<in> set xs. hasQuickFixes i" by simp_all
  obtain w a f where st: "st = (w, a, f)" by (cases st)
  obtain r w1 where s: "applyQuickFixToFile w p (firstQuickFix x) = (r, w1)"
    by (cases "applyQuickFixToFile w p (firstQuickFix x)")
  show ?case
  proof (cases r)
    case (Inl e)
    with s have f: "applyQuickFixToFile w p (firstQuickFix x) = (Inl e, w1)" by simp
    show ?thesis
      unfolding st append_Cons applyLoop_step_failed [OF hx f]
      by (rule Cons.IH [OF rest])
  next
    case (Inr msg)
    with s have f: "applyQuickFixToFile w p (firstQuickFix x) = (Inr msg, w1)" by simp
    show ?thesis
      unfolding st append_Cons applyLoop_step_applied [OF hx f]
      by (rule Cons.IH [OF rest])
  qed
qed

lemma applyLoop_cong:
  assumes "files w1 = files w2" and "canCreate w1 = canCreate w2"
    and "\<forall>i \<in> set xs. hasQuickFixes i"
  shows "\<exists>v1 v2 a' later.
           applyLoop p xs (w1, a, f1) = (None, v1, a', f1 @ later)
           \<and> applyLoop p xs (w2, a, f2) = (None, v2, a', f2 @ later)
           \<and> files v1 = files v2 \<and> canCreate v1 = canCreate v2"
  using assms
proof (induction xs arbitrary: w1 w2 a f1 f2)
  case Nil
  then show ?case by simp
next
  case (Cons x xs)
  then have hx: "hasQuickFixes x" and rest: "\<forall>i \<in> set xs. hasQuickFixes i" by simp_all
  obtain r1 v1 where s1: "applyQuickFixToFile w1 p (firstQuickFix x) = (r1, v1)"
    by (cases "applyQuickFixToFile w1 p (firstQuickFix x)")
  obtain r2 v2 where s2: "applyQuickFixToFile w2 p (firstQuickFix x) = (r2, v2)"
    by (cases "applyQuickFixToFile w2 p (firstQuickFix x)")
  from applyQuickFixToFile_cong [OF Cons.prems(1,2), of p "firstQuickFix x"] s1 s2
  have eq: "r1 = r2" "files v1 = files v2" "canCreate v1 = canCreate v2"
    by simp_all
  show ?case
  proof (cases r2)
    case (Inl e)
    let ?ev = "ConsoleError ''[MCP] Failed to apply fix'' e"
    let ?rec = "\<lparr>fail_line = issueLine x, fail_rule = ruleKey x, fail_error = e\<rparr>"
    have fe: "files (logEvent v1 ?ev) = files (logEvent v2 ?ev)"
      "canCreate (logEvent v1 ?ev) = canCreate (logEvent v2 ?ev)"
      using eq by simp_all
    from s1 s2 eq Inl
    have st1: "applyLoop p (x # xs) (w1, a, f1) = applyLoop p xs (logEvent v1 ?ev, a, f1 @ [?rec])"
      and st2: "applyLoop p (x # xs) (w2, a, f2) = applyLoop p xs (logEvent v2 ?ev, a, f2 @ [?rec])"
      using applyLoop_step_failed [OF hx] by simp_all
    from Cons.IH [OF fe rest, of a "f1 @ [?rec]" "f2 @ [?rec]"]
    obtain u1 u2 a' later where
      "applyLoop p xs (logEvent v1 ?ev, a, f1 @ [?rec]) = (None, u1, a', (f1 @ [?rec]) @ later)"
      "applyLoop p xs (logEvent v2 ?ev, a, f2 @ [?rec]) = (None, u2, a', (f2 @ [?rec]) @ later)"
      "files u1 = files u2" "canCreate u1 = canCreate u2"
      by blast
    then have "applyLoop p (x # xs) (w1, a, f1) = (None, u1, a', f1 @ (?rec # later))"
      "applyLoop p (x # xs) (w2, a, f2) = (None, u2, a', f2 @ (?rec # later))"
      "files u1 = files u2" "canCreate u1 = canCreate u2"
      unfolding st1 st2 by simp_all
    then show ?thesis by blast
  next
    case (Inr msg)
    let ?rec = "\<lparr>fix_line = issueLine x, fix_rule = ruleKey x, fix_message = msg\<rparr>"
    from s1 s2 eq Inr
    have st1: "applyLoop p (x # xs) (w1, a, f1) = applyLoop p xs (v1, a @ [?rec], f1)"
      and st2: "applyLoop p (x # xs) (w2, a, f2) = applyLoop p xs (v2, a @ [?rec], f2)"
      using applyLoop_step_applied [OF hx] by simp_all
    from Cons.IH [OF eq(2,3) rest, of "a @ [?rec]" f1 f2]
    show ?thesis unfolding st1 st2 .
  qed
qed

lemma applyLoop_skip_failed:
  assumes planned: "\<forall>i \<in> set (pre @ bad # post). hasQuickFixes i"
    and pre: "applyLoop p pre (w, a, f) = (ab, w1, a1, f1)"
    and bad: "applyQuickFixToFile w1 p (firstQuickFix bad) = (Inl e, w1')"
  shows "\<exists>v v' a2 later.
           applyLoop p (pre @ bad # post) (w, a, f)
             = (None, v', a2,
                f1 @ \<lparr>fail_line = issueLine bad, fail_rule = ruleKey bad, fail_error = e\<rparr> # later)
           \<and> applyLoop p (pre @ post) (w, a, f) = (None, v, a2, f1 @ later)
           \<and> files v' = files v"
proof -
  let ?ev = "ConsoleError ''[MCP] Failed to apply fix'' e"
  let ?rec = "\<lparr>fail_line = issueLine bad, fail_rule = ruleKey bad, fail_error = e\<rparr>"
  from planned have ppre: "\<forall>i \<in> set pre. hasQuickFixes i" and pbad: "hasQuickFixes bad"
    and ppost: "\<forall>i \<in> set post. hasQuickFixes i" by simp_all
  have with_bad: "applyLoop p (pre @ bad # post) (w, a, f)
        = applyLoop p post (logEvent w1' ?ev, a1, f1 @ [?rec])"
    using pre applyLoop_step_failed [OF pbad bad] by (simp add: applyLoop_append [OF ppre])
  have without: "applyLoop p (pre @ post) (w, a, f) = applyLoop p post (w1, a1, f1)"
    using pre by (simp add: applyLoop_append [OF ppre])
  have "files (logEvent w1' ?ev) = files w1" "canCreate (logEvent w1' ?ev) = canCreate w1"
    using applyQuickFixToFile_fail [OF bad] by simp_all
  from applyLoop_cong [OF this ppost, of p a1 "f1 @ [?rec]" f1]
  show ?thesis unfolding with_bad without by auto
qed

lemma plan_has_quick_fixes:
  "\<forall>i \<in> set (sortBy compareIssues (filter hasQuickFixes raw)). hasQuickFixes i"
  by (simp add: sortBy_compareIssues)

text \<open>
  C6. When the analysis of an existing file returns no issue with a quick fix, the tool
  answers \<open>No quick fixes available\<close>, nothing counts as applied, the file system is
  the one before the call, and the call has made no write at all.
\<close>

theorem no_fixes_no_writes:
  assumes "existsSync w filePath"
    and "ensureSloopBridge env w = (Inr (), w1)"
    and "getOrCreateScope env w1 filePath = (Inr scopeId, w2)"
    and "analyzeFilesAndTrack env w2 scopeId [filePath] = (Inr rawResult, w3)"
    and "filter hasQuickFixes (rawIssuesOrEmpty rawResult) = []"
  shows "handleApplyAllQuickFixes env w filePath
           = (Inr (NoQuickFixesAvailable filePath (length (rawIssuesOrEmpty rawResult))), w3)
     \<and> appliedCount (NoQuickFixesAvailable filePath (length (rawIssuesOrEmpty rawResult))) = 0
     \<and> files w3 = files w
     \<and> (\<forall>p c. WriteFile p c \<in> set (trace w3) \<longrightarrow> WriteFile p c \<in> set (trace w))"
proof -
  have res: "handleApplyAllQuickFixes env w filePath
           = (Inr (NoQuickFixesAvailable filePath (length (rawIssuesOrEmpty rawResult))), w3)"
    using assms by (simp add: handleApplyAllQuickFixes_def Let_def)
  note f1 = ensureSloopBridge_frame [OF assms(2)]
  note f2 = getOrCreateScope_frame [OF assms(3)]
  note f3 = analyzeFilesAndTrack_frame [OF assms(4)]
  have fs: "files w3 = files w" using f1 f2 f3 by simp
  have t1: "\<forall>p c. WriteFile p c \<in> set (trace w1) \<longrightarrow> WriteFile p c \<in> set (trace w)"
    using f1 by auto
  have t2: "\<forall>p c. WriteFile p c \<in> set (trace w2) \<longrightarrow> WriteFile p c \<in> set (trace w1)"
    using f2 by auto
  have t3: "\<forall>p c. WriteFile p c \<in> set (trace w3) \<longrightarrow> WriteFile p c \<in> set (trace w2)"
    using f3 by auto
  show ?thesis using res fs t1 t2 t3 by (simp add: appliedCount_def)
qed


lemmas demo_defs = demoPath_def demoLines_def demoIssue_def demoIssues_def demoWorld_def
  demoEnv_def isAnalyze_def isNotification_def

theorem no_fixes_no_writes_witness:
  "fst (handleApplyAllQuickFixes
          (demoEnv [\<lparr>ruleKey = ''javascript:S107'', textRange = None,
                     issueStartLine = Some 2, quickFixes = None\<rparr>] True)
          (demoWorld ''f(1, 2)'') demoPath)
     = Inr (NoQuickFixesAvailable demoPath 1)
   \<and> files (snd (handleApplyAllQuickFixes
          (demoEnv [\<lparr>ruleKey = ''javascript:S107'', textRange = None,
                     issueStartLine = Some 2, quickFixes = None\<rparr>] True)
          (demoWorld ''f(1, 2)'') demoPath))
     = files (demoWorld ''f(1, 2)'')"
proof -
  let ?i = "\<lparr>ruleKey = ''javascript:S107'', textRange = None,
             issueStartLine = Some (2::nat), quickFixes = None\<rparr>"
  let ?env = "demoEnv [?i] True"
  let ?w = "demoWorld ''f(1, 2)''"
  let ?w1 = "snd (ensureSloopBridge ?env ?w)"
  let ?w2 = "snd (getOrCreateScope ?env ?w1 demoPath)"
  let ?w3 = "snd (analyzeFilesAndTrack ?env ?w2 ''scope-01234567'' [demoPath])"
  have h1: "existsSync ?w demoPath"
    by (simp add: existsSync_def demo_defs)
  have h2: "ensureSloopBridge ?env ?w = (Inr (), ?w1)"
    by (simp add: ensureSloopBridge_def demo_defs)
  have w1: "sloopBridge ?w1" "scopeMap ?w1 = []" "trace ?w1 = [Connect]"
    by (simp_all add: ensureSloopBridge_def demo_defs logEvent_def)
  have h3: "getOrCreateScope ?env ?w1 demoPath = (Inr ''scope-01234567'', ?w2)"
    using w1
    by (simp add: getOrCreateScope_def Let_def truthy_def mapGet_def bridgeCall_def
        logEvent_def demo_defs)
  have w2: "trace ?w2 = [Connect, AddConfigurationScope ''scope-01234567'' ''Project: /proj'']"
    using w1
    by (simp add: getOrCreateScope_def Let_def truthy_def mapGet_def bridgeCall_def
        logEvent_def demo_defs)
  have h4: "analyzeFilesAndTrack ?env ?w2 ''scope-01234567'' [demoPath] = (Inr (Some [?i]), ?w3)"
    using w2
    by (simp add: analyzeFilesAndTrack_def bridgeCall_def logEvent_def Let_def demo_defs)
  have h5: "filter hasQuickFixes (rawIssuesOrEmpty (Some [?i])) = []"
    by (simp add: rawIssuesOrEmpty_def hasQuickFixes_def)
  from no_fixes_no_writes [OF h1 h2 h3 h4 h5]
  show ?thesis by (simp add: rawIssuesOrEmpty_def)
qed


lemmas run_defs = applyQuickFixToFile_def readFileSync_def writeFileSync_def
      firstQuickFix_def quickFixFileEdits_def sortBy_def compareEdits_def editSortLine_def
      logEvent_def Let_def hasQuickFixes_def compareIssues_def issueLine_def

lemma handleApplyAllQuickFixes_applied:
  assumes "handleApplyAllQuickFixes env w filePath = (Inr (QuickFixesApplied rep), w')"
  shows "\<exists>w1 sid w2 raw w3 w4 a f w5 final.
      existsSync w filePath
      \<and> ensureSloopBridge env w = (Inr (), w1)
      \<and> getOrCreateScope env w1 filePath = (Inr sid, w2)
      \<and> analyzeFilesAndTrack env w2 sid [filePath] = (Inr raw, w3)
      \<and> filter hasQuickFixes (rawIssuesOrEmpty raw) \<noteq> []
      \<and> applyLoop filePath (sortBy compareIssues (filter hasQuickFixes (rawIssuesOrEmpty raw)))
            (w3, [], []) = (None, w4, a, f)
      \<and> notifyFileSystemChanged env w4 filePath sid = (Inr (), w5)
      \<and> analyzeFilesAndTrack env (logEvent w5 (SetTimeout 500)) sid [filePath] = (Inr final, w')
      \<and> rep = \<lparr>reportFile = filePath, appliedFixes = a, failedFixes = f,
                 remainingIssues = rawIssuesOrEmpty final\<rparr>"
proof -
  from assms have ex: "existsSync w filePath"
    by (auto simp: handleApplyAllQuickFixes_def split: if_splits)
  obtain r1 w1 where s1: "ensureSloopBridge env w = (r1, w1)"
    by (cases "ensureSloopBridge env w")
  from assms ex s1 have r1: "r1 = Inr ()"
    by (cases r1) (auto simp: handleApplyAllQuickFixes_def)
  obtain r2 w2 where s2: "getOrCreateScope env w1 filePath = (r2, w2)"
    by (cases "getOrCreateScope env w1 filePath")
  from assms ex s1 r1 s2 obtain sid where r2: "r2 = Inr sid"
    by (cases r2) (auto simp: handleApplyAllQuickFixes_def)
  obtain r3 w3 where s3: "analyzeFilesAndTrack env w2 sid [filePath] = (r3, w3)"
    by (cases "analyzeFilesAndTrack env w2 sid [filePath]")
  from assms ex s1 r1 s2 r2 s3 obtain raw where r3: "r3 = Inr raw"
    by (cases r3) (auto simp: handleApplyAllQuickFixes_def)
  let ?sel = "filter hasQuickFixes (rawIssuesOrEmpty raw)"
  from assms ex s1 r1 s2 r2 s3 r3 have ne: "?sel \<noteq> []"
    by (auto simp: handleApplyAllQuickFixes_def Let_def split: if_splits)
  from applyLoop_counts [OF plan_has_quick_fixes, of filePath "rawIssuesOrEmpty raw" w3 "[]" "[]"]
  obtain w4 a f where s4: "applyLoop filePath (sortBy compareIssues ?sel) (w3, [], []) = (None, w4, a, f)"
    by blast
  obtain r5 w5 where s5: "notifyFileSystemChanged env w4 filePath sid = (r5, w5)"
    by (cases "notifyFileSystemChanged env w4 filePath sid")
  have r5: "r5 = Inr ()" using notifyFileSystemChanged_frame [OF s5] by simp
  obtain r6 w6 where s6: "analyzeFilesAndTrack env (logEvent w5 (SetTimeout 500)) sid [filePath] = (r6, w6)"
    by (cases "analyzeFilesAndTrack env (logEvent w5 (SetTimeout 500)) sid [filePath]")
  from assms ex s1 r1 s2 r2 s3 r3 ne s4 s5 r5 s6
  have fin: "(case r6 of Inl e \<Rightarrow> (Inl e, w6)
              | Inr finalResult \<Rightarrow>
                 (Inr (QuickFixesApplied
                         \<lparr>reportFile = filePath, appliedFixes = a,
                          failedFixes = f,
                          remainingIssues = rawIssuesOrEmpty finalResult\<rparr>),
                  w6)) = (Inr (QuickFixesApplied rep), w')"
    by (simp add: handleApplyAllQuickFixes_def Let_def)
  then obtain final where r6: "r6 = Inr final" by (cases r6) auto
  with fin have "w6 = w'" and "rep = \<lparr>reportFile = filePath, appliedFixes = a, failedFixes = f,
                 remainingIssues = rawIssuesOrEmpty final\<rparr>"
    by auto
  with ex s1 r1 s2 r2 s3 r3 ne s4 s5 r5 s6 r6 show ?thesis by blast
qed

lemma length_sortBy_compareIssues: "length (sortBy compareIssues xs) = length xs"
  by (simp add: sortBy_compareIssues)

lemmas handler_defs = handleApplyAllQuickFixes_def handleApplyQuickFix_def
  applyQuickFixAndNotify_def existsSync_def ensureSloopBridge_def getOrCreateScope_def
  analyzeFilesAndTrack_def bridgeCall_def notifyFileSystemChanged_def notifyBody_def
  detectLanguage_def languageToEnum_def rootOfScope_def truthy_def mapGet_def
  rawIssuesOrEmpty_def

lemma applyEach_loop:
  assumes "\<forall>i \<in> set xs. hasQuickFixes i" and "applyEach p xs w = Some w'"
  shows "\<exists>a'. applyLoop p xs (w, a, f) = (None, w', a @ a', f)
           \<and> map fix_line a' = map issueLine xs \<and> map fix_rule a' = map ruleKey xs"
  using assms
proof (induction xs arbitrary: w a)
  case Nil
  then show ?case by simp
next
  case (Cons x xs)
  then have hx: "hasQuickFixes x" and rest: "\<forall>i \<in> set xs. hasQuickFixes i" by simp_all
  obtain r w1 where s: "applyQuickFixToFile w p (firstQuickFix x) = (r, w1)"
    by (cases "applyQuickFixToFile w p (firstQuickFix x)")
  show ?case
  proof (cases r)
    case (Inl e)
    with s Cons.prems(2) show ?thesis by simp
  next
    case (Inr msg)
    let ?rec = "\<lparr>fix_line = issueLine x, fix_rule = ruleKey x, fix_message = msg\<rparr>"
    from s Inr Cons.prems(2) have e: "applyEach p xs w1 = Some w'" by simp
    from s Inr have st: "applyLoop p (x # xs) (w, a, f) = applyLoop p xs (w1, a @ [?rec], f)"
      using applyLoop_step_applied [OF hx] by simp
    from Cons.IH [OF rest e, of "a @ [?rec]"]
    obtain a' where "applyLoop p xs (w1, a @ [?rec], f) = (None, w', (a @ [?rec]) @ a', f)"
      "map fix_line a' = map issueLine xs" "map fix_rule a' = map ruleKey xs"
      by blast
    then have "applyLoop p (x # xs) (w, a, f) = (None, w', a @ (?rec # a'), f)"
      "map fix_line (?rec # a') = map issueLine (x # xs)"
      "map fix_rule (?rec # a') = map ruleKey (x # xs)"
      unfolding st by simp_all
    then show ?thesis by blast
  qed
qed

lemma applyEach_cong:
  assumes "files w1 = files w2" and "canCreate w1 = canCreate w2"
    and "applyEach p xs w1 = Some v1"
  shows "\<exists>v2. applyEach p xs w2 = Some v2 \<and> files v2 = files v1 \<and> canCreate v2 = canCreate v1"
  using assms
proof (induction xs arbitrary: w1 w2)
  case Nil
  then show ?case by simp
next
  case (Cons x xs)
  obtain r1 u1 where s1: "applyQuickFixToFile w1 p (firstQuickFix x) = (r1, u1)"
    by (cases "applyQuickFixToFile w1 p (firstQuickFix x)")
  obtain r2 u2 where s2: "applyQuickFixToFile w2 p (firstQuickFix x) = (r2, u2)"
    by (cases "applyQuickFixToFile w2 p (firstQuickFix x)")
  from applyQuickFixToFile_cong [OF Cons.prems(1,2), of p "firstQuickFix x"] s1 s2
  have eq: "r1 = r2" "files u1 = files u2" "canCreate u1 = canCreate u2"
    by simp_all
  show ?case
  proof (cases r1)
    case (Inl e)
    with s1 Cons.prems(3) show ?thesis by simp
  next
    case (Inr msg)
    with s1 Cons.prems(3) have "applyEach p xs u1 = Some v1" by simp
    from Cons.IH [OF eq(2,3) this]
    obtain v2 where "applyEach p xs u2 = Some v2" "files v2 = files v1" "canCreate v2 = canCreate v1"
      by blast
    moreover from eq(1) Inr have "r2 = Inr msg" by simp
    ultimately show ?thesis using s2 by simp
  qed
qed

lemma applyEach_append:
  assumes "applyEach p xs w = Some w1"
  shows "applyEach p (xs @ ys) w = applyEach p ys w1"
  using assms
proof (induction xs arbitrary: w)
  case Nil
  then show ?case by simp
next
  case (Cons x xs)
  obtain r u where s: "applyQuickFixToFile w p (firstQuickFix x) = (r, u)"
    by (cases "applyQuickFixToFile w p (firstQuickFix x)")
  show ?case
  proof (cases r)
    case (Inl e)
    with s Cons.prems show ?thesis by simp
  next
    case (Inr msg)
    with s Cons.prems have "applyEach p xs u = Some w1" by simp
    from Cons.IH [OF this] s Inr show ?thesis by simp
  qed
qed

lemma handleApplyAllQuickFixes_after_analysis:
  assumes "existsSync w p"
    and "ensureSloopBridge env w = (Inr (), w1)"
    and "getOrCreateScope env w1 p = (Inr sid, w2)"
    and "analyzeFilesAndTrack env w2 sid [p] = (Inr raw, w3)"
    and "filter hasQuickFixes (rawIssuesOrEmpty raw) \<noteq> []"
  shows "\<exists>w4 a f w5.
      applyLoop p (sortBy compareIssues (filter hasQuickFixes (rawIssuesOrEmpty raw)))
          (w3, [], []) = (None, w4, a, f)
      \<and> length a + length f = length (filter hasQuickFixes (rawIssuesOrEmpty raw))
      \<and> notifyFileSystemChanged env w4 p sid = (Inr (), w5)
      \<and> files w5 = files w4
      \<and> handleApplyAllQuickFixes env w p =
          (case analyzeFilesAndTrack env (logEvent w5 (SetTimeout 500)) sid [p] of
             (Inl e, w6) \<Rightarrow> (Inl e, w6)
           | (Inr finalResult, w6) \<Rightarrow>
               (Inr (QuickFixesApplied
                       \<lparr>reportFile = p, appliedFixes = a, failedFixes = f,
                        remainingIssues = rawIssuesOrEmpty finalResult\<rparr>),
                w6))"
proof -
  let ?sel = "filter hasQuickFixes (rawIssuesOrEmpty raw)"
  from applyLoop_counts [OF plan_has_quick_fixes, of p "rawIssuesOrEmpty raw" w3 "[]" "[]"]
  obtain w4 a f where lp: "applyLoop p (sortBy compareIssues ?sel) (w3, [], []) = (None, w4, a, f)"
    and cnt: "length a + length f = length ?sel"
    by (auto simp: length_sortBy_compareIssues)
  obtain r5 w5 where n: "notifyFileSystemChanged env w4 p sid = (r5, w5)"
    by (cases "notifyFileSystemChanged env w4 p sid")
  from notifyFileSystemChanged_frame [OF n] have r5: "r5 = Inr ()" and fs: "files w5 = files w4"
    by simp_all
  have "handleApplyAllQuickFixes env w p =
          (case analyzeFilesAndTrack env (logEvent w5 (SetTimeout 500)) sid [p] of
             (Inl e, w6) \<Rightarrow> (Inl e, w6)
           | (Inr finalResult, w6) \<Rightarrow>
               (Inr (QuickFixesApplied
                       \<lparr>reportFile = p, appliedFixes = a, failedFixes = f,
                        remainingIssues = rawIssuesOrEmpty finalResult\<rparr>),
                w6))"
    using assms lp n r5 by (simp add: handleApplyAllQuickFixes_def Let_def)
  with lp cnt n r5 fs show ?thesis by blast
qed

lemma handleApplyAllQuickFixes_one_failure:
  assumes st: "existsSync w p" "ensureSloopBridge env w = (Inr (), w1)"
      "getOrCreateScope env w1 p = (Inr sid, w2)"
      "analyzeFilesAndTrack env w2 sid [p] = (Inr raw, w3)"
    and plan: "sortBy compareIssues (filter hasQuickFixes (rawIssuesOrEmpty raw)) = pre @ bad # post"
    and pre: "applyEach p pre w3 = Some v1"
    and bad: "applyQuickFixToFile v1 p (firstQuickFix bad) = (Inl e, v1')"
    and post: "applyEach p post (logEvent v1' (ConsoleError ''[MCP] Failed to apply fix'' e)) = Some v2'"
  shows "\<exists>r w' a.
      handleApplyAllQuickFixes env w p = (r, w')
      \<and> files w' = files v2'
      \<and> (\<exists>v2. applyEach p (pre @ post) w3 = Some v2 \<and> files v2 = files w')
      \<and> map fix_line a = map issueLine (pre @ post)
      \<and> map fix_rule a = map ruleKey (pre @ post)
      \<and> (r = Inl BackendError
           \<or> (\<exists>remaining.
                 r = Inr (QuickFixesApplied
                            \<lparr>reportFile = p, appliedFixes = a,
                             failedFixes = [\<lparr>fail_line = issueLine bad, fail_rule = ruleKey bad,
                                             fail_error = e\<rparr>],
                             remainingIssues = remaining\<rparr>)))"
proof -
  let ?ev = "ConsoleError ''[MCP] Failed to apply fix'' e"
  let ?rec = "\<lparr>fail_line = issueLine bad, fail_rule = ruleKey bad, fail_error = e\<rparr>"
  let ?plan = "sortBy compareIssues (filter hasQuickFixes (rawIssuesOrEmpty raw))"
  have planned: "\<forall>i \<in> set (pre @ bad # post). hasQuickFixes i"
    using plan_has_quick_fixes [of "rawIssuesOrEmpty raw"] plan by simp
  then have ppre: "\<forall>i \<in> set pre. hasQuickFixes i" and pbad: "hasQuickFixes bad"
    and ppost: "\<forall>i \<in> set post. hasQuickFixes i" by simp_all
  from plan have ne: "filter hasQuickFixes (rawIssuesOrEmpty raw) \<noteq> []"
    using length_sortBy_compareIssues [of "filter hasQuickFixes (rawIssuesOrEmpty raw)"] by auto
  from applyEach_loop [OF ppre pre, of "[]" "[]"]
  obtain a1 where l1: "applyLoop p pre (w3, [], []) = (None, v1, a1, [])"
    and m1: "map fix_line a1 = map issueLine pre" "map fix_rule a1 = map ruleKey pre"
    by auto
  from applyEach_loop [OF ppost post, of a1 "[?rec]"]
  obtain a2 where l2: "applyLoop p post (logEvent v1' ?ev, a1, [?rec]) = (None, v2', a1 @ a2, [?rec])"
    and m2: "map fix_line a2 = map issueLine post" "map fix_rule a2 = map ruleKey post"
    by auto
  have whole: "applyLoop p ?plan (w3, [], []) = (None, v2', a1 @ a2, [?rec])"
    unfolding plan applyLoop_append [OF ppre] l1 snd_conv
    using applyLoop_step_failed [OF pbad bad, of post a1 "[]"] l2 by simp
  from handleApplyAllQuickFixes_after_analysis [OF st ne] whole
  obtain w5 where n: "notifyFileSystemChanged env v2' p sid = (Inr (), w5)"
    and fs5: "files w5 = files v2'"
    and h: "handleApplyAllQuickFixes env w p =
          (case analyzeFilesAndTrack env (logEvent w5 (SetTimeout 500)) sid [p] of
             (Inl e, w6) \<Rightarrow> (Inl e, w6)
           | (Inr finalResult, w6) \<Rightarrow>
               (Inr (QuickFixesApplied
                       \<lparr>reportFile = p, appliedFixes = a1 @ a2, failedFixes = [?rec],
                        remainingIssues = rawIssuesOrEmpty finalResult\<rparr>),
                w6))"
    by auto
  obtain r6 w6 where an: "analyzeFilesAndTrack env (logEvent w5 (SetTimeout 500)) sid [p] = (r6, w6)"
    by (cases "analyzeFilesAndTrack env (logEvent w5 (SetTimeout 500)) sid [p]")
  from analyzeFilesAndTrack_frame [OF an]
  have fs6: "files w6 = files v2'" and r6: "r6 = Inl BackendError \<or> (\<exists>fin. r6 = Inr fin)"
    using fs5 by auto
  have "files (logEvent v1' ?ev) = files v1" "canCreate (logEvent v1' ?ev) = canCreate v1"
    using applyQuickFixToFile_fail [OF bad] by simp_all
  from applyEach_cong [OF this post]
  obtain v2 where e2: "applyEach p post v1 = Some v2" and f2: "files v2 = files v2'" by blast
  have without: "applyEach p (pre @ post) w3 = Some v2"
    using applyEach_append [OF pre, of post] e2 by simp
  have maps: "map fix_line (a1 @ a2) = map issueLine (pre @ post)"
    "map fix_rule (a1 @ a2) = map ruleKey (pre @ post)"
    using m1 m2 by simp_all
  have f26: "files v2 = files w6" using f2 fs6 by simp
  with without have ex2: "\<exists>v2. applyEach p (pre @ post) w3 = Some v2 \<and> files v2 = files w6"
    by blast
  from r6 show ?thesis
  proof
    assume "r6 = Inl BackendError"
    with h an have hb: "handleApplyAllQuickFixes env w p = (Inl BackendError, w6)" by simp
    have "handleApplyAllQuickFixes env w p = (Inl BackendError, w6)
      \<and> files w6 = files v2'
      \<and> (\<exists>v2. applyEach p (pre @ post) w3 = Some v2 \<and> files v2 = files w6)
      \<and> map fix_line (a1 @ a2) = map issueLine (pre @ post)
      \<and> map fix_rule (a1 @ a2) = map ruleKey (pre @ post)
      \<and> (Inl BackendError = (Inl BackendError :: error + apply_all_result)
           \<or> (\<exists>remaining.
                 Inl BackendError = Inr (QuickFixesApplied
                            \<lparr>reportFile = p, appliedFixes = a1 @ a2,
                             failedFixes = [?rec], remainingIssues = remaining\<rparr>)))"
      using hb fs6 ex2 maps by (intro conjI disjI1 refl)
    then show ?thesis by (intro exI)
  next
    assume "\<exists>fin. r6 = Inr fin"
    then obtain fin where "r6 = Inr fin" by blast
    with h an have hr: "handleApplyAllQuickFixes env w p =
        (Inr (QuickFixesApplied
                \<lparr>reportFile = p, appliedFixes = a1 @ a2, failedFixes = [?rec],
                 remainingIssues = rawIssuesOrEmpty fin\<rparr>), w6)"
      by simp
    let ?r = "Inr (QuickFixesApplied
                \<lparr>reportFile = p, appliedFixes = a1 @ a2, failedFixes = [?rec],
                 remainingIssues = rawIssuesOrEmpty fin\<rparr>) :: error + apply_all_result"
    have last: "\<exists>remaining.
                 ?r = Inr (QuickFixesApplied
                            \<lparr>reportFile = p, appliedFixes = a1 @ a2,
                             failedFixes = [?rec], remainingIssues = remaining\<rparr>)"
      by blast
    have "handleApplyAllQuickFixes env w p = (?r, w6)
      \<and> files w6 = files v2'
      \<and> (\<exists>v2. applyEach p (pre @ post) w3 = Some v2 \<and> files v2 = files w6)
      \<and> map fix_line (a1 @ a2) = map issueLine (pre @ post)
      \<and> map fix_rule (a1 @ a2) = map ruleKey (pre @ post)
      \<and> (?r = Inl BackendError
           \<or> (\<exists>remaining.
                 ?r = Inr (QuickFixesApplied
                            \<lparr>reportFile = p, appliedFixes = a1 @ a2,
                             failedFixes = [?rec], remainingIssues = remaining\<rparr>)))"
      using hr fs6 ex2 maps last by (intro conjI disjI2)
    then show ?thesis by (intro exI)
  qed
qed

text \<open>
  C5. A failure while one issue's fix is applied leaves the files as they were, puts a
  record with the position, the rule and the error at the end of the failed list, and the
  loop goes on with the next issue. On a plan (issues that passed the filter) the loop
  never breaks off, and every issue ends in exactly one of the two lists; files and
  applied list of a loop in which one issue fails are those of the loop without it.

  For the tool itself: once the first analysis has returned an issue with a quick fix,
  \<open>handleApplyAllQuickFixes\<close> runs the loop to its end, notifies, waits and analyses
  again, whatever failed in the loop; its outcome is the error of that second analysis or
  the report with the two lists of the loop, which together hold every planned issue. If
  in a call the fix of exactly one planned issue throws and the fixes before and after it
  run through, the files the tool leaves are those of applying the other fixes alone, with
  the coordinates they came with; the report lists these as applied and the one as
  failed. With five planned issues that is \<open>appliedCount = 4\<close> and \<open>failedCount = 1\<close>.
\<close>

theorem failure_is_recorded_and_batch_continues:
  "(\<forall>w q e w'. applyQuickFixToFile w p q = (Inl e, w') \<longrightarrow> files w' = files w)
   \<and> (\<forall>issue rest w a f e w'.
         hasQuickFixes issue
         \<and> applyQuickFixToFile w p (firstQuickFix issue) = (Inl e, w') \<longrightarrow>
         applyLoop p (issue # rest) (w, a, f)
           = applyLoop p rest
               (logEvent w' (ConsoleError ''[MCP] Failed to apply fix'' e), a,
                f @ [\<lparr>fail_line = issueLine issue, fail_rule = ruleKey issue, fail_error = e\<rparr>]))
   \<and> (\<forall>raw i. i \<in> set (sortBy compareIssues (filter hasQuickFixes raw)) \<longrightarrow> hasQuickFixes i)
   \<and> (\<forall>issues w a f.
         (\<forall>i \<in> set issues. hasQuickFixes i) \<longrightarrow>
         (\<exists>w' a' f'. applyLoop p issues (w, a, f) = (None, w', a', f')
            \<and> length a' + length f' = length a + length f + length issues))
   \<and> (\<forall>pre bad post w a f ab w1 a1 f1 e w1'.
         (\<forall>i \<in> set (pre @ bad # post). hasQuickFixes i)
         \<and> applyLoop p pre (w, a, f) = (ab, w1, a1, f1)
         \<and> applyQuickFixToFile w1 p (firstQuickFix bad) = (Inl e, w1') \<longrightarrow>
         (\<exists>v v' a2 later.
            applyLoop p (pre @ bad # post) (w, a, f)
              = (None, v', a2,
                 f1 @ \<lparr>fail_line = issueLine bad, fail_rule = ruleKey bad, fail_error = e\<rparr> # later)
            \<and> applyLoop p (pre @ post) (w, a, f) = (None, v, a2, f1 @ later)
            \<and> files v' = files v))
   \<and> (\<forall>env w w1 sid w2 raw w3.
         existsSync w p
         \<and> ensureSloopBridge env w = (Inr (), w1)
         \<and> getOrCreateScope env w1 p = (Inr sid, w2)
         \<and> analyzeFilesAndTrack env w2 sid [p] = (Inr raw, w3)
         \<and> filter hasQuickFixes (rawIssuesOrEmpty raw) \<noteq> [] \<longrightarrow>
         (\<exists>w4 a f w5.
            applyLoop p (sortBy compareIssues (filter hasQuickFixes (rawIssuesOrEmpty raw)))
                (w3, [], []) = (None, w4, a, f)
            \<and> length a + length f = length (filter hasQuickFixes (rawIssuesOrEmpty raw))
            \<and> notifyFileSystemChanged env w4 p sid = (Inr (), w5)
            \<and> files w5 = files w4
            \<and> handleApplyAllQuickFixes env w p =
                (case analyzeFilesAndTrack env (logEvent w5 (SetTimeout 500)) sid [p] of
                   (Inl e, w6) \<Rightarrow> (Inl e, w6)
                 | (Inr finalResult, w6) \<Rightarrow>
                     (Inr (QuickFixesApplied
                             \<lparr>reportFile = p, appliedFixes = a, failedFixes = f,
                              remainingIssues = rawIssuesOrEmpty finalResult\<rparr>),
                      w6))))
   \<and> (\<forall>env w w1 sid w2 raw w3 pre bad post v1 e v1' v2'.
         existsSync w p
         \<and> ensureSloopBridge env w = (Inr (), w1)
         \<and> getOrCreateScope env w1 p = (Inr sid, w2)
         \<and> analyzeFilesAndTrack env w2 sid [p] = (Inr raw, w3)
         \<and> sortBy compareIssues (filter hasQuickFixes (rawIssuesOrEmpty raw)) = pre @ bad # post
         \<and> applyEach p pre w3 = Some v1
         \<and> applyQuickFixToFile v1 p (firstQuickFix bad) = (Inl e, v1')
         \<and> applyEach p post (logEvent v1' (ConsoleError ''[MCP] Failed to apply fix'' e))
             = Some v2' \<longrightarrow>
         (\<exists>r w' a.
            handleApplyAllQuickFixes env w p = (r, w')
            \<and> files w' = files v2'
            \<and> (\<exists>v2. applyEach p (pre @ post) w3 = Some v2 \<and> files v2 = files w')
            \<and> map fix_line a = map issueLine (pre @ post)
            \<and> map fix_rule a = map ruleKey (pre @ post)
            \<and> (r = Inl BackendError
                 \<or> (\<exists>res remaining.
                       r = Inr res
                       \<and> res = QuickFixesApplied
                                 \<lparr>reportFile = p, appliedFixes = a,
                                  failedFixes = [\<lparr>fail_line = issueLine bad,
                                                  fail_rule = ruleKey bad, fail_error = e\<rparr>],
                                  remainingIssues = remaining\<rparr>
                       \<and> appliedCount res = length pre + length post
                       \<and> failedCount res = 1
                       \<and> (length (pre @ bad # post) = 5 \<longrightarrow> appliedCount res = 4)))))"
proof (intro conjI allI impI)
  show "files w' = files w" if "applyQuickFixToFile w p q = (Inl e, w')" for w q e w'
    using applyQuickFixToFile_fail [OF that] by simp
  show "applyLoop p (issue # rest) (w, a, f)
           = applyLoop p rest
               (logEvent w' (ConsoleError ''[MCP] Failed to apply fix'' e), a,
                f @ [\<lparr>fail_line = issueLine issue, fail_rule = ruleKey issue, fail_error = e\<rparr>])"
    if "hasQuickFixes issue \<and> applyQuickFixToFile w p (firstQuickFix issue) = (Inl e, w')"
    for issue rest w a f e w'
    using that applyLoop_step_failed [of issue w p e w' rest a f] by blast
  show "hasQuickFixes i" if "i \<in> set (sortBy compareIssues (filter hasQuickFixes raw))" for raw i
    using that plan_has_quick_fixes [of raw] by blast
  show "\<exists>w' a' f'. applyLoop p issues (w, a, f) = (None, w', a', f')
            \<and> length a' + length f' = length a + length f + length issues"
    if "\<forall>i \<in> set issues. hasQuickFixes i" for issues w a f
    using applyLoop_counts [OF that] .
  show "\<exists>v v' a2 later.
            applyLoop p (pre @ bad # post) (w, a, f)
              = (None, v', a2,
                 f1 @ \<lparr>fail_line = issueLine bad, fail_rule = ruleKey bad, fail_error = e\<rparr> # later)
            \<and> applyLoop p (pre @ post) (w, a, f) = (None, v, a2, f1 @ later)
            \<and> files v' = files v"
    if "(\<forall>i \<in> set (pre @ bad # post). hasQuickFixes i)
         \<and> applyLoop p pre (w, a, f) = (ab, w1, a1, f1)
         \<and> applyQuickFixToFile w1 p (firstQuickFix bad) = (Inl e, w1')"
    for pre bad post w a f ab w1 a1 f1 e w1'
    using that applyLoop_skip_failed [of pre bad post p w a f ab w1 a1 f1 e w1'] by blast
next
  fix env w w1 sid w2 raw w3
  assume h: "existsSync w p
         \<and> ensureSloopBridge env w = (Inr (), w1)
         \<and> getOrCreateScope env w1 p = (Inr sid, w2)
         \<and> analyzeFilesAndTrack env w2 sid [p] = (Inr raw, w3)
         \<and> filter hasQuickFixes (rawIssuesOrEmpty raw) \<noteq> []"
  then have st: "existsSync w p" "ensureSloopBridge env w = (Inr (), w1)"
      "getOrCreateScope env w1 p = (Inr sid, w2)"
      "analyzeFilesAndTrack env w2 sid [p] = (Inr raw, w3)"
      "filter hasQuickFixes (rawIssuesOrEmpty raw) \<noteq> []"
    by simp_all
  show "\<exists>w4 a f w5.
            applyLoop p (sortBy compareIssues (filter hasQuickFixes (rawIssuesOrEmpty raw)))
                (w3, [], []) = (None, w4, a, f)
            \<and> length a + length f = length (filter hasQuickFixes (rawIssuesOrEmpty raw))
            \<and> notifyFileSystemChanged env w4 p sid = (Inr (), w5)
            \<and> files w5 = files w4
            \<and> handleApplyAllQuickFixes env w p =
                (case analyzeFilesAndTrack env (logEvent w5 (SetTimeout 500)) sid [p] of
                   (Inl e, w6) \<Rightarrow> (Inl e, w6)
                 | (Inr finalResult, w6) \<Rightarrow>
                     (Inr (QuickFixesApplied
                             \<lparr>reportFile = p, appliedFixes = a, failedFixes = f,
                              remainingIssues = rawIssuesOrEmpty finalResult\<rparr>),
                      w6))"
    by (rule handleApplyAllQuickFixes_after_analysis [OF st])
next
  fix env w w1 sid w2 raw w3 pre bad post v1 e v1' v2'
  assume h: "existsSync w p
         \<and> ensureSloopBridge env w = (Inr (), w1)
         \<and> getOrCreateScope env w1 p = (Inr sid, w2)
         \<and> analyzeFilesAndTrack env w2 sid [p] = (Inr raw, w3)
         \<and> sortBy compareIssues (filter hasQuickFixes (rawIssuesOrEmpty raw)) = pre @ bad # post
         \<and> applyEach p pre w3 = Some v1
         \<and> applyQuickFixToFile v1 p (firstQuickFix bad) = (Inl e, v1')
         \<and> applyEach p post (logEvent v1' (ConsoleError ''[MCP] Failed to apply fix'' e))
             = Some v2'"
  let ?rec = "\<lparr>fail_line = issueLine bad, fail_rule = ruleKey bad, fail_error = e\<rparr>"
  from h have st: "existsSync w p" "ensureSloopBridge env w = (Inr (), w1)"
      "getOrCreateScope env w1 p = (Inr sid, w2)"
      "analyzeFilesAndTrack env w2 sid [p] = (Inr raw, w3)"
    and plan: "sortBy compareIssues (filter hasQuickFixes (rawIssuesOrEmpty raw)) = pre @ bad # post"
    and pre: "applyEach p pre w3 = Some v1"
    and bad: "applyQuickFixToFile v1 p (firstQuickFix bad) = (Inl e, v1')"
    and post: "applyEach p post (logEvent v1' (ConsoleError ''[MCP] Failed to apply fix'' e))
             = Some v2'"
    by simp_all
  from handleApplyAllQuickFixes_one_failure [OF st plan pre bad post]
  obtain r w' a where
    run: "handleApplyAllQuickFixes env w p = (r, w')" and
    fs: "files w' = files v2'" and
    alone: "\<exists>v2. applyEach p (pre @ post) w3 = Some v2 \<and> files v2 = files w'" and
    ml: "map fix_line a = map issueLine (pre @ post)" and
    mr: "map fix_rule a = map ruleKey (pre @ post)" and
    res: "r = Inl BackendError
           \<or> (\<exists>remaining.
                 r = Inr (QuickFixesApplied
                            \<lparr>reportFile = p, appliedFixes = a, failedFixes = [?rec],
                             remainingIssues = remaining\<rparr>))"
    by blast
  from ml have la: "length a = length pre + length post"
    using length_map [of fix_line a] length_map [of issueLine "pre @ post"] by simp
  have out: "r = Inl BackendError
                 \<or> (\<exists>res remaining.
                       r = Inr res
                       \<and> res = QuickFixesApplied
                                 \<lparr>reportFile = p, appliedFixes = a, failedFixes = [?rec],
                                  remainingIssues = remaining\<rparr>
                       \<and> appliedCount res = length pre + length post
                       \<and> failedCount res = 1
                       \<and> (length (pre @ bad # post) = 5 \<longrightarrow> appliedCount res = 4))"
  proof (rule disjE [OF res])
    assume "r = Inl BackendError"
    then show ?thesis by (rule disjI1)
  next
    assume "\<exists>remaining.
                 r = Inr (QuickFixesApplied
                            \<lparr>reportFile = p, appliedFixes = a, failedFixes = [?rec],
                             remainingIssues = remaining\<rparr>)"
    then obtain remaining where
      r: "r = Inr (QuickFixesApplied
                            \<lparr>reportFile = p, appliedFixes = a, failedFixes = [?rec],
                             remainingIssues = remaining\<rparr>)"
      by blast
    let ?res = "QuickFixesApplied
                 \<lparr>reportFile = p, appliedFixes = a, failedFixes = [?rec],
                  remainingIssues = remaining\<rparr>"
    have c: "appliedCount ?res = length pre + length post" "failedCount ?res = 1"
      using la by (simp_all add: appliedCount_def failedCount_def)
    have five: "length (pre @ bad # post) = 5 \<longrightarrow> appliedCount ?res = 4"
      using c(1) by simp
    from r c five show ?thesis by blast
  qed
  from run fs alone ml mr out
  show "\<exists>r w' a.
            handleApplyAllQuickFixes env w p = (r, w')
            \<and> files w' = files v2'
            \<and> (\<exists>v2. applyEach p (pre @ post) w3 = Some v2 \<and> files v2 = files w')
            \<and> map fix_line a = map issueLine (pre @ post)
            \<and> map fix_rule a = map ruleKey (pre @ post)
            \<and> (r = Inl BackendError
                 \<or> (\<exists>res remaining.
                       r = Inr res
                       \<and> res = QuickFixesApplied
                                 \<lparr>reportFile = p, appliedFixes = a,
                                  failedFixes = [\<lparr>fail_line = issueLine bad,
                                                  fail_rule = ruleKey bad, fail_error = e\<rparr>],
                                  remainingIssues = remaining\<rparr>
                       \<and> appliedCount res = length pre + length post
                       \<and> failedCount res = 1
                       \<and> (length (pre @ bad # post) = 5 \<longrightarrow> appliedCount res = 4)))"
    by blast
qed

lemma demo_tool_run:
  "case handleApplyAllQuickFixes (demoEnv demoIssues True) (demoWorld (joinLines demoLines))
          demoPath of (r, w') \<Rightarrow>
     r = Inr (QuickFixesApplied
               \<lparr>reportFile = demoPath,
                appliedFixes =
                  [\<lparr>fix_line = 11, fix_rule = ''javascript:S3626'', fix_message = ''Fix''\<rparr>,
                   \<lparr>fix_line = 5, fix_rule = ''javascript:S3504'', fix_message = ''Fix''\<rparr>,
                   \<lparr>fix_line = 4, fix_rule = ''javascript:S3504'', fix_message = ''Fix''\<rparr>,
                   \<lparr>fix_line = 3, fix_rule = ''javascript:S3504'', fix_message = ''Fix''\<rparr>],
                failedFixes =
                  [\<lparr>fail_line = 7, fail_rule = ''javascript:S4138'', fail_error = TypeError\<rparr>],
                remainingIssues = []\<rparr>)
     \<and> map_option (splitLines \<circ> content) (files w' demoPath) =
       Some [''function f(xs) {'', ''  g();'', ''  const a = 1;'', ''  const b = 2;'',
             ''  const c = 3;'', ''  h(a, b, c);'', ''  for (;;) {}'', ''  m();'', ''  n();'',
             ''  o();'', ''  '', ''}'', [], ''f([]);'', ''// end'']"
  by (simp add: handler_defs demo_defs run_defs edit_defs)

theorem failure_is_recorded_and_batch_continues_witness:
  "(\<exists>res. fst (handleApplyAllQuickFixes (demoEnv demoIssues True)
                  (demoWorld (joinLines demoLines)) demoPath) = Inr res
          \<and> appliedCount res = 4 \<and> failedCount res = 1
          \<and> map fail_line (case res of QuickFixesApplied rep \<Rightarrow> failedFixes rep
                                        | NoQuickFixesAvailable _ _ \<Rightarrow> []) = [7]
          \<and> map fix_line (case res of QuickFixesApplied rep \<Rightarrow> appliedFixes rep
                                       | NoQuickFixesAvailable _ _ \<Rightarrow> []) = [11, 5, 4, 3])
   \<and> map_option (splitLines \<circ> content)
        (files (snd (handleApplyAllQuickFixes (demoEnv demoIssues True)
                       (demoWorld (joinLines demoLines)) demoPath)) demoPath) =
       Some [''function f(xs) {'', ''  g();'', ''  const a = 1;'', ''  const b = 2;'',
             ''  const c = 3;'', ''  h(a, b, c);'', ''  for (;;) {}'', ''  m();'', ''  n();'',
             ''  o();'', ''  '', ''}'', [], ''f([]);'', ''// end'']"
proof -
  let ?env = "demoEnv demoIssues True"
  let ?w = "demoWorld (joinLines demoLines)"
  let ?i11 = "demoIssue ''javascript:S3626'' 11 11 2 9 []"
  let ?i7 = "demoIssue ''javascript:S4138'' 7 70 2 5 ''xs.forEach''"
  let ?i5 = "demoIssue ''javascript:S3504'' 5 5 2 5 ''const''"
  let ?i4 = "demoIssue ''javascript:S3504'' 4 4 2 5 ''const''"
  let ?i3 = "demoIssue ''javascript:S3504'' 3 3 2 5 ''const''"
  let ?ev = "ConsoleError ''[MCP] Failed to apply fix'' TypeError"
  let ?w1 = "snd (ensureSloopBridge ?env ?w)"
  let ?w2 = "snd (getOrCreateScope ?env ?w1 demoPath)"
  let ?w3 = "snd (analyzeFilesAndTrack ?env ?w2 ''scope-01234567'' [demoPath])"
  let ?v1 = "the (applyEach demoPath [?i11] ?w3)"
  let ?v2 = "the (applyEach demoPath [?i5, ?i4, ?i3] (logEvent ?v1 ?ev))"
  have h1: "existsSync ?w demoPath"
    by (simp add: existsSync_def demo_defs)
  have h2: "ensureSloopBridge ?env ?w = (Inr (), ?w1)"
    by (simp add: ensureSloopBridge_def demoEnv_def demoWorld_def)
  have w1: "sloopBridge ?w1" "scopeMap ?w1 = []" "trace ?w1 = [Connect]"
    by (simp_all add: ensureSloopBridge_def demoEnv_def demoWorld_def logEvent_def)
  have h3: "getOrCreateScope ?env ?w1 demoPath = (Inr ''scope-01234567'', ?w2)"
    using w1
    by (simp add: getOrCreateScope_def Let_def truthy_def mapGet_def bridgeCall_def
        logEvent_def demoEnv_def isNotification_def)
  have w2: "trace ?w2 = [Connect, AddConfigurationScope ''scope-01234567'' ''Project: /proj'']"
    using w1
    by (simp add: getOrCreateScope_def Let_def truthy_def mapGet_def bridgeCall_def
        logEvent_def demoEnv_def isNotification_def)
  have h4: "analyzeFilesAndTrack ?env ?w2 ''scope-01234567'' [demoPath]
              = (Inr (Some demoIssues), ?w3)"
    using w2
    by (simp add: analyzeFilesAndTrack_def bridgeCall_def logEvent_def Let_def demoEnv_def
        isNotification_def isAnalyze_def)
  have plan: "sortBy compareIssues (filter hasQuickFixes (rawIssuesOrEmpty (Some demoIssues)))
                = [?i11] @ ?i7 # [?i5, ?i4, ?i3]"
    by (simp add: rawIssuesOrEmpty_def demoIssues_def demoIssue_def hasQuickFixes_def
        sortBy_def compareIssues_def issueLine_def orElse_def optField_def)
  have pre: "applyEach demoPath [?i11] ?w3 = Some ?v1"
    by (simp add: handler_defs demo_defs run_defs edit_defs)
  have bad: "applyQuickFixToFile ?v1 demoPath (firstQuickFix ?i7) = (Inl TypeError, ?v1)"
    by (simp add: handler_defs demo_defs run_defs edit_defs)
  have post: "applyEach demoPath [?i5, ?i4, ?i3] (logEvent ?v1 ?ev) = Some ?v2"
    by (simp add: handler_defs demo_defs run_defs edit_defs)
  note tool = failure_is_recorded_and_batch_continues [of demoPath,
      THEN conjunct2, THEN conjunct2, THEN conjunct2, THEN conjunct2, THEN conjunct2,
      THEN conjunct2, rule_format, of ?w ?env ?w1 "''scope-01234567''" ?w2 "Some demoIssues" ?w3
        "[?i11]" ?i7 "[?i5, ?i4, ?i3]" ?v1 TypeError ?v1 ?v2]
  from tool h1 h2 h3 h4 plan pre bad post
  obtain r w' where
    run: "handleApplyAllQuickFixes ?env ?w demoPath = (r, w')" and
    res: "r = Inl BackendError
          \<or> (\<exists>res. r = Inr res \<and> appliedCount res = length [?i11] + length [?i5, ?i4, ?i3]
                    \<and> failedCount res = 1)"
    by blast
  from demo_tool_run run obtain rep where
    r: "r = Inr (QuickFixesApplied rep)" and
    fl: "map fail_line (failedFixes rep) = [7]" and
    al: "map fix_line (appliedFixes rep) = [11, 5, 4, 3]" and
    c: "map_option (splitLines \<circ> content) (files w' demoPath) =
       Some [''function f(xs) {'', ''  g();'', ''  const a = 1;'', ''  const b = 2;'',
             ''  const c = 3;'', ''  h(a, b, c);'', ''  for (;;) {}'', ''  m();'', ''  n();'',
             ''  o();'', ''  '', ''}'', [], ''f([]);'', ''// end'']"
    by simp
  from res r have cnt: "appliedCount (QuickFixesApplied rep) = 4"
    "failedCount (QuickFixesApplied rep) = 1"
    by simp_all
  show ?thesis using run r cnt fl al c by simp
qed

section \<open>Properties of the notification and of the single-fix tool\<close>

lemma applyTextEdit_error: "applyTextEdit lines e = Inl err \<Longrightarrow> err = TypeError"
  by (auto simp: applyTextEdit_def Let_def split: if_splits)

lemma applyTextEdits_error: "applyTextEdits lines es = Inl err \<Longrightarrow> err = TypeError"
  by (induction es arbitrary: lines) (auto split: sum.splits dest: applyTextEdit_error)

lemma applyFileEdits_error: "applyFileEdits lines fes = Inl err \<Longrightarrow> err = TypeError"
  by (induction fes arbitrary: lines)
     (auto split: sum.splits option.splits dest: applyTextEdits_error)

lemma applyQuickFixAndNotify_cases:
  obtains
    (dump_failed) e wd where
      "writeFileSync w ''/tmp/quickfix-debug.json'' (stringify env t) = (Inl e, wd)"
      "applyQuickFixAndNotify env w p sid t q = (Inl e, wd)"
  | (read_failed) wd e where
      "writeFileSync w ''/tmp/quickfix-debug.json'' (stringify env t) = (Inr (), wd)"
      "readFileSync wd p = Inl e"
      "applyQuickFixAndNotify env w p sid t q = (Inl e, wd)"
  | (edit_failed) wd body e where
      "writeFileSync w ''/tmp/quickfix-debug.json'' (stringify env t) = (Inr (), wd)"
      "readFileSync wd p = Inr body"
      "applyFileEdits (splitLines body) (quickFixFileEdits q) = Inl e"
      "applyQuickFixAndNotify env w p sid t q = (Inl e, wd)"
  | (write_failed) wd body lines' e ww where
      "writeFileSync w ''/tmp/quickfix-debug.json'' (stringify env t) = (Inr (), wd)"
      "readFileSync wd p = Inr body"
      "applyFileEdits (splitLines body) (quickFixFileEdits q) = Inr lines'"
      "writeFileSync wd p (joinLines lines') = (Inl e, ww)"
      "applyQuickFixAndNotify env w p sid t q = (Inl e, ww)"
  | (applied) wd body lines' ww wn where
      "writeFileSync w ''/tmp/quickfix-debug.json'' (stringify env t) = (Inr (), wd)"
      "readFileSync wd p = Inr body"
      "applyFileEdits (splitLines body) (quickFixFileEdits q) = Inr lines'"
      "writeFileSync wd p (joinLines lines') = (Inr (), ww)"
      "notifyFileSystemChanged env ww p sid = (Inr (), wn)"
      "applyQuickFixAndNotify env w p sid t q
         = (Inr (strOrElse (message q) ''Applied automated fix''), logEvent wn (SetTimeout 500))"
proof -
  obtain r1 wd where s1: "writeFileSync w ''/tmp/quickfix-debug.json'' (stringify env t) = (r1, wd)"
    by (cases "writeFileSync w ''/tmp/quickfix-debug.json'' (stringify env t)")
  show thesis
  proof (cases r1)
    case (Inl e)
    with s1 show thesis by (intro dump_failed [of e wd]) (simp_all add: applyQuickFixAndNotify_def)
  next
    case r1: (Inr u)
    show thesis
    proof (cases "readFileSync wd p")
      case (Inl e)
      with s1 r1 show thesis
        by (intro read_failed [of wd e]) (simp_all add: applyQuickFixAndNotify_def)
    next
      case rd: (Inr body)
      show thesis
      proof (cases "applyFileEdits (splitLines body) (quickFixFileEdits q)")
        case (Inl e)
        with s1 r1 rd show thesis
          by (intro edit_failed [of wd body e]) (simp_all add: applyQuickFixAndNotify_def)
      next
        case ed: (Inr lines')
        obtain r4 ww where s4: "writeFileSync wd p (joinLines lines') = (r4, ww)"
          by (cases "writeFileSync wd p (joinLines lines')")
        show thesis
        proof (cases r4)
          case (Inl e)
          with s1 r1 rd ed s4 show thesis
            by (intro write_failed [of wd body lines' e ww])
               (simp_all add: applyQuickFixAndNotify_def)
        next
          case r4: (Inr u4)
          obtain r5 wn where s5: "notifyFileSystemChanged env ww p sid = (r5, wn)"
            by (cases "notifyFileSystemChanged env ww p sid")
          have r5: "r5 = Inr ()" using notifyFileSystemChanged_frame [OF s5] by simp
          with s1 r1 rd ed s4 r4 s5 show thesis
            by (intro applied [of wd body lines' ww wn])
               (simp_all add: applyQuickFixAndNotify_def)
        qed
      qed
    qed
  qed
qed

text \<open>
  C8. \<open>notifyFileSystemChanged\<close> returns normally whatever happens inside it: an error
  of the bridge, of a notification or of reading the file ends in the catch handler,
  which logs it. After the notification the apply-all tool sets the timer to 500 ms and
  only then calls the analysis again; the single-fix tool sets the same timer before it
  answers.
\<close>

theorem notification_failure_is_swallowed:
  "fst (notifyFileSystemChanged env w filePath scopeId) = Inr ()
   \<and> (\<forall>e w1.
         notifyBody env w filePath scopeId (''file://'' @ filePath)
           (relative env
              (case truthy (rootOfScope (scopeMap w) scopeId) of
                 Some root \<Rightarrow> root | None \<Rightarrow> dirname env filePath)
              filePath) = (Inl e, w1) \<longrightarrow>
         notifyFileSystemChanged env w filePath scopeId
           = (Inr (),
              logEvent w1
                (ConsoleError (''[FS] Failed to notify file system update for '' @ filePath) e)))
   \<and> (\<forall>rep w'.
         handleApplyAllQuickFixes env w filePath = (Inr (QuickFixesApplied rep), w') \<longrightarrow>
         (\<exists>w4 sid.
            trace w' = trace (snd (notifyFileSystemChanged env w4 filePath sid))
                         @ [SetTimeout 500, AnalyzeFilesAndTrack sid [filePath]]))
   \<and> (\<forall>line rule msg w'.
         handleApplyQuickFix env w filePath line rule = (Inr msg, w') \<longrightarrow>
         (\<exists>w5 sid.
            trace w' = trace (snd (notifyFileSystemChanged env w5 filePath sid))
                         @ [SetTimeout 500]))"
proof (intro conjI allI impI)
  show n: "fst (notifyFileSystemChanged env w filePath scopeId) = Inr ()"
    using notifyFileSystemChanged_frame [of env w filePath scopeId]
    by (cases "notifyFileSystemChanged env w filePath scopeId") simp
  show "notifyFileSystemChanged env w filePath scopeId
           = (Inr (),
              logEvent w1
                (ConsoleError (''[FS] Failed to notify file system update for '' @ filePath) e))"
    if "notifyBody env w filePath scopeId (''file://'' @ filePath)
           (relative env
              (case truthy (rootOfScope (scopeMap w) scopeId) of
                 Some root \<Rightarrow> root | None \<Rightarrow> dirname env filePath)
              filePath) = (Inl e, w1)" for e w1
    using that by (simp add: notifyFileSystemChanged_def Let_def)
next
  fix rep w'
  assume h: "handleApplyAllQuickFixes env w filePath = (Inr (QuickFixesApplied rep), w')"
  from handleApplyAllQuickFixes_applied [OF h]
  obtain sid w4 w5 final where
    n: "notifyFileSystemChanged env w4 filePath sid = (Inr (), w5)" and
    a: "analyzeFilesAndTrack env (logEvent w5 (SetTimeout 500)) sid [filePath] = (Inr final, w')"
    by blast
  from analyzeFilesAndTrack_frame [OF a]
  have "trace w' = trace w5 @ [SetTimeout 500, AnalyzeFilesAndTrack sid [filePath]]"
    by simp
  with n have "trace w' = trace (snd (notifyFileSystemChanged env w4 filePath sid))
                         @ [SetTimeout 500, AnalyzeFilesAndTrack sid [filePath]]"
    by simp
  then show "\<exists>w4 sid.
            trace w' = trace (snd (notifyFileSystemChanged env w4 filePath sid))
                         @ [SetTimeout 500, AnalyzeFilesAndTrack sid [filePath]]"
    by blast
next
  fix line rule msg w'
  assume h: "handleApplyQuickFix env w filePath line rule = (Inr msg, w')"
  have "\<exists>w3 sid t q. applyQuickFixAndNotify env w3 filePath sid t q = (Inr msg, w')"
    using h
    by (auto simp: handleApplyQuickFix_def split: if_splits prod.splits sum.splits option.splits)
  then obtain w3 sid t q where ap: "applyQuickFixAndNotify env w3 filePath sid t q = (Inr msg, w')"
    by blast
  show "\<exists>w5 sid.
            trace w' = trace (snd (notifyFileSystemChanged env w5 filePath sid))
                         @ [SetTimeout 500]"
  proof (cases rule: applyQuickFixAndNotify_cases [of w3 env t filePath sid q])
    case (applied wd body lines' ww wn)
    with ap have "w' = logEvent wn (SetTimeout 500)" by simp
    with applied(5) have "trace w' = trace (snd (notifyFileSystemChanged env ww filePath sid))
                         @ [SetTimeout 500]"
      by simp
    then show ?thesis by blast
  qed (use ap in simp_all)
qed


lemma demo_notify_fails:
  "handleApplyAllQuickFixes (demoEnv [demoIssue ''javascript:S3504'' 1 1 0 3 ''let''] False)
      (demoWorld ''var a;'') demoPath
   = (Inr (QuickFixesApplied
             \<lparr>reportFile = demoPath,
              appliedFixes = [\<lparr>fix_line = 1, fix_rule = ''javascript:S3504'',
                               fix_message = ''Fix''\<rparr>],
              failedFixes = [], remainingIssues = []\<rparr>),
      \<lparr>files = [demoPath \<mapsto> \<lparr>content = ''let a;'', readable = True, writable = True\<rparr>],
       canCreate = (\<lambda>p. True),
       scopeMap = [(''/proj'', ''scope-01234567'')],
       sloopBridge = True,
       trace = [Connect, AddConfigurationScope ''scope-01234567'' ''Project: /proj'',
                AnalyzeFilesAndTrack ''scope-01234567'' [demoPath],
                WriteFile demoPath ''let a;'',
                DidOpenFile ''scope-01234567'' (''file://'' @ demoPath),
                ConsoleError (''[FS] Failed to notify file system update for '' @ demoPath)
                  BackendError,
                SetTimeout 500,
                AnalyzeFilesAndTrack ''scope-01234567'' [demoPath]]\<rparr>)"
  by (simp add: handler_defs demo_defs run_defs edit_defs)


theorem notification_failure_is_swallowed_witness:
  "fst (handleApplyAllQuickFixes (demoEnv [demoIssue ''javascript:S3504'' 1 1 0 3 ''let''] False)
          (demoWorld ''var a;'') demoPath)
     = Inr (QuickFixesApplied
             \<lparr>reportFile = demoPath,
              appliedFixes = [\<lparr>fix_line = 1, fix_rule = ''javascript:S3504'',
                               fix_message = ''Fix''\<rparr>],
              failedFixes = [], remainingIssues = []\<rparr>)
   \<and> trace (snd (handleApplyAllQuickFixes
                   (demoEnv [demoIssue ''javascript:S3504'' 1 1 0 3 ''let''] False)
                   (demoWorld ''var a;'') demoPath))
     = [Connect, AddConfigurationScope ''scope-01234567'' ''Project: /proj'',
        AnalyzeFilesAndTrack ''scope-01234567'' [demoPath],
        WriteFile demoPath ''let a;'',
        DidOpenFile ''scope-01234567'' (''file://'' @ demoPath),
        ConsoleError (''[FS] Failed to notify file system update for '' @ demoPath) BackendError,
        SetTimeout 500,
        AnalyzeFilesAndTrack ''scope-01234567'' [demoPath]]
   \<and> (\<exists>w4 sid.
         trace (snd (handleApplyAllQuickFixes
                   (demoEnv [demoIssue ''javascript:S3504'' 1 1 0 3 ''let''] False)
                   (demoWorld ''var a;'') demoPath))
           = trace (snd (notifyFileSystemChanged
                           (demoEnv [demoIssue ''javascript:S3504'' 1 1 0 3 ''let''] False)
                           w4 demoPath sid))
               @ [SetTimeout 500, AnalyzeFilesAndTrack sid [demoPath]])"
proof -
  let ?env = "demoEnv [demoIssue ''javascript:S3504'' 1 1 0 3 ''let''] False"
  let ?w = "demoWorld ''var a;''"
  note run = demo_notify_fails
  have "\<exists>w4 sid.
         trace (snd (handleApplyAllQuickFixes ?env ?w demoPath))
           = trace (snd (notifyFileSystemChanged ?env w4 demoPath sid))
               @ [SetTimeout 500, AnalyzeFilesAndTrack sid [demoPath]]"
    using notification_failure_is_swallowed [of ?env ?w demoPath "''scope-01234567''"] run
    by (metis snd_conv)
  then show ?thesis using run by simp
qed

lemma handleApplyQuickFix_after_analysis:
  assumes "existsSync w filePath"
    and "ensureSloopBridge env w = (Inr (), w1)"
    and "getOrCreateScope env w1 filePath = (Inr sid, w2)"
    and "analyzeFilesAndTrack env w2 sid [filePath] = (Inr raw, w3)"
  shows "handleApplyQuickFix env w filePath line rule =
     (case find (\<lambda>issue. issueLine issue = line \<and> ruleKey issue = rule) (rawIssuesOrEmpty raw) of
        None \<Rightarrow> (Inl IssueNotFound, w3)
      | Some t \<Rightarrow>
          (case firstQuickFix t of
             None \<Rightarrow> (Inl NoQuickFixAvailable, w3)
           | Some q \<Rightarrow> applyQuickFixAndNotify env w3 filePath sid t q))"
  using assms by (simp add: handleApplyQuickFix_def)

lemma applyQuickFixAndNotify_errors:
  assumes "fst (applyQuickFixAndNotify env w p sid t q) = Inl e"
  shows "e = TypeError \<or> (\<exists>s. e = IOError s)"
proof (cases rule: applyQuickFixAndNotify_cases [of w env t p sid q])
  case (dump_failed e' wd)
  then show ?thesis using assms writeFileSync_error [of w _ _ e' wd] by auto
next
  case (read_failed wd e')
  then show ?thesis using assms readFileSync_error [of wd p e'] by auto
next
  case (edit_failed wd body e')
  then show ?thesis using assms applyFileEdits_error [of _ _ e'] by auto
next
  case (write_failed wd body lines' e' ww)
  then show ?thesis using assms writeFileSync_error [of wd _ _ e' ww] by auto
next
  case (applied wd body lines' ww wn)
  then show ?thesis using assms by simp
qed

lemma applyQuickFixAndNotify_ok_iff:
  "fst (applyQuickFixAndNotify env w p sid t q) = Inr msg \<longleftrightarrow>
     msg = strOrElse (message q) ''Applied automated fix''
     \<and> (\<exists>wd body lines' ww.
           writeFileSync w ''/tmp/quickfix-debug.json'' (stringify env t) = (Inr (), wd)
           \<and> readFileSync wd p = Inr body
           \<and> applyFileEdits (splitLines body) (quickFixFileEdits q) = Inr lines'
           \<and> writeFileSync wd p (joinLines lines') = (Inr (), ww))"
  by (cases rule: applyQuickFixAndNotify_cases [of w env t p sid q]) auto

lemma firstQuickFix_None_iff:
  "firstQuickFix t = None \<longleftrightarrow> quickFixes t = None \<or> quickFixes t = Some []"
  by (auto simp: firstQuickFix_def split: option.splits list.splits)

text \<open>
  C7, as stated, fails in its last part: with the file present, the issue found and a
  quick fix at hand, the tool can still fail. Here the edit of the quick fix addresses
  line 70 of a one-line file, and the call ends in a \<open>TypeError\<close> after the debug dump.
\<close>

theorem single_fix_type_error_counterexample:
  "existsSync (demoWorld ''for (;;) {}'') demoPath
   \<and> issueLine (demoIssue ''javascript:S4138'' 7 70 2 5 ''xs.forEach'') = 7
   \<and> ruleKey (demoIssue ''javascript:S4138'' 7 70 2 5 ''xs.forEach'') = ''javascript:S4138''
   \<and> hasQuickFixes (demoIssue ''javascript:S4138'' 7 70 2 5 ''xs.forEach'')
   \<and> handleApplyQuickFix (demoEnv [demoIssue ''javascript:S4138'' 7 70 2 5 ''xs.forEach''] True)
        (demoWorld ''for (;;) {}'') demoPath 7 ''javascript:S4138''
      = (Inl TypeError,
         \<lparr>files = [demoPath \<mapsto> \<lparr>content = ''for (;;) {}'', readable = True, writable = True\<rparr>,
                   ''/tmp/quickfix-debug.json''
                     \<mapsto> \<lparr>content = ''{}'', readable = True, writable = True\<rparr>],
          canCreate = (\<lambda>p. True),
          scopeMap = [(''/proj'', ''scope-01234567'')],
          sloopBridge = True,
          trace = [Connect, AddConfigurationScope ''scope-01234567'' ''Project: /proj'',
                   AnalyzeFilesAndTrack ''scope-01234567'' [demoPath],
                   WriteFile ''/tmp/quickfix-debug.json'' ''{}'']\<rparr>)"
  by (simp add: handler_defs demo_defs run_defs edit_defs)

text \<open>
  C7, amended. Without the file the tool raises \<open>FileNotFound\<close> and leaves the world
  untouched, the bridge included. With the file and an analysis that returned, it raises
  \<open>IssueNotFound\<close> exactly when no issue has the given start line and rule; for the
  first such issue it raises \<open>NoQuickFixAvailable\<close> exactly when the quick-fix list is
  absent or empty; otherwise it goes on with the first quick fix of that issue, and this
  succeeds exactly when the debug dump is written, the file is read, all edits apply to
  lines of the buffer and the file is written. Any other outcome is the \<open>TypeError\<close> or
  I/O error of the failing step.
\<close>

theorem single_fix_outcomes:
  "(\<not> existsSync w filePath \<longrightarrow>
      handleApplyQuickFix env w filePath line rule = (Inl (FileNotFound filePath), w))
   \<and> (\<forall>w1 sid w2 raw w3.
        existsSync w filePath
        \<and> ensureSloopBridge env w = (Inr (), w1)
        \<and> getOrCreateScope env w1 filePath = (Inr sid, w2)
        \<and> analyzeFilesAndTrack env w2 sid [filePath] = (Inr raw, w3) \<longrightarrow>
        (fst (handleApplyQuickFix env w filePath line rule) = Inl IssueNotFound
           \<longleftrightarrow> \<not> (\<exists>i \<in> set (rawIssuesOrEmpty raw). issueLine i = line \<and> ruleKey i = rule))
        \<and> (\<forall>t. find (\<lambda>i. issueLine i = line \<and> ruleKey i = rule) (rawIssuesOrEmpty raw) = Some t
              \<longrightarrow>
             (fst (handleApplyQuickFix env w filePath line rule) = Inl NoQuickFixAvailable
                \<longleftrightarrow> (quickFixes t = None \<or> quickFixes t = Some []))
             \<and> (\<forall>q qs. quickFixes t = Some (q # qs) \<longrightarrow>
                  handleApplyQuickFix env w filePath line rule
                    = applyQuickFixAndNotify env w3 filePath sid t q
                  \<and> (\<forall>msg. fst (applyQuickFixAndNotify env w3 filePath sid t q) = Inr msg
                        \<longleftrightarrow>
                        msg = strOrElse (message q) ''Applied automated fix''
                        \<and> (\<exists>wd body lines' ww.
                              writeFileSync w3 ''/tmp/quickfix-debug.json'' (stringify env t)
                                = (Inr (), wd)
                              \<and> readFileSync wd filePath = Inr body
                              \<and> applyFileEdits (splitLines body) (quickFixFileEdits q) = Inr lines'
                              \<and> writeFileSync wd filePath (joinLines lines') = (Inr (), ww)))
                  \<and> (\<forall>e. fst (applyQuickFixAndNotify env w3 filePath sid t q) = Inl e
                        \<longrightarrow> e = TypeError \<or> (\<exists>s. e = IOError s)))))"
proof (intro conjI allI impI)
  show "handleApplyQuickFix env w filePath line rule = (Inl (FileNotFound filePath), w)"
    if "\<not> existsSync w filePath"
    using that by (simp add: handleApplyQuickFix_def)
next
  fix w1 sid w2 raw w3
  assume st: "existsSync w filePath
        \<and> ensureSloopBridge env w = (Inr (), w1)
        \<and> getOrCreateScope env w1 filePath = (Inr sid, w2)
        \<and> analyzeFilesAndTrack env w2 sid [filePath] = (Inr raw, w3)"
  let ?P = "\<lambda>i. issueLine i = line \<and> ruleKey i = rule"
  let ?h = "handleApplyQuickFix env w filePath line rule"
  let ?found = "find ?P (rawIssuesOrEmpty raw)"
  from st have s1: "existsSync w filePath" and s2: "ensureSloopBridge env w = (Inr (), w1)"
    and s3: "getOrCreateScope env w1 filePath = (Inr sid, w2)"
    and s4: "analyzeFilesAndTrack env w2 sid [filePath] = (Inr raw, w3)"
    by simp_all
  note h = handleApplyQuickFix_after_analysis [OF s1 s2 s3 s4, of line rule]
  have h_none: "?h = (Inl IssueNotFound, w3)" if "?found = None"
    unfolding h using that by simp
  have h_nofix: "?h = (Inl NoQuickFixAvailable, w3)"
    if "?found = Some t" "firstQuickFix t = None" for t
    unfolding h using that by simp
  have h_fix: "?h = applyQuickFixAndNotify env w3 filePath sid t q"
    if "?found = Some t" "firstQuickFix t = Some q" for t q
    unfolding h using that by simp
  have other: "fst (applyQuickFixAndNotify env w3 filePath sid t q) \<noteq> Inl IssueNotFound"
    "fst (applyQuickFixAndNotify env w3 filePath sid t q) \<noteq> Inl NoQuickFixAvailable" for t q
    using applyQuickFixAndNotify_errors [of env w3 filePath sid t q] by blast+
  show "fst ?h = Inl IssueNotFound
           \<longleftrightarrow> \<not> (\<exists>i \<in> set (rawIssuesOrEmpty raw). issueLine i = line \<and> ruleKey i = rule)"
  proof (cases ?found)
    case None
    have "fst ?h = Inl IssueNotFound" using h_none [OF None] by simp
    moreover have "\<not> (\<exists>i \<in> set (rawIssuesOrEmpty raw). ?P i)"
      using None by (simp add: find_None_iff)
    ultimately show ?thesis by blast
  next
    case (Some t)
    then have "?found \<noteq> None" by simp
    then have ex: "\<exists>i \<in> set (rawIssuesOrEmpty raw). ?P i"
      unfolding find_None_iff by blast
    have "fst ?h \<noteq> Inl IssueNotFound"
    proof (cases "firstQuickFix t")
      case None
      then show ?thesis using h_nofix [OF Some None] by simp
    next
      case (Some q)
      then show ?thesis using h_fix [OF \<open>?found = Some t\<close> Some] other(1) [of t q] by simp
    qed
    with ex show ?thesis by blast
  qed
  fix t
  assume f: "?found = Some t"
  show "fst ?h = Inl NoQuickFixAvailable \<longleftrightarrow> (quickFixes t = None \<or> quickFixes t = Some [])"
  proof (cases "firstQuickFix t")
    case None
    then show ?thesis
      using h_nofix [OF f None] firstQuickFix_None_iff [of t] by simp
  next
    case (Some q)
    then have "\<not> (quickFixes t = None \<or> quickFixes t = Some [])"
      using firstQuickFix_None_iff [of t] by simp
    moreover have "fst ?h \<noteq> Inl NoQuickFixAvailable"
      using h_fix [OF f Some] other(2) [of t q] by simp
    ultimately show ?thesis by blast
  qed
  fix q qs
  assume q: "quickFixes t = Some (q # qs)"
  then have fq: "firstQuickFix t = Some q" by (simp add: firstQuickFix_def)
  show "?h = applyQuickFixAndNotify env w3 filePath sid t q"
    using h_fix [OF f fq] .
  show "fst (applyQuickFixAndNotify env w3 filePath sid t q) = Inr msg
                        \<longleftrightarrow>
                        msg = strOrElse (message q) ''Applied automated fix''
                        \<and> (\<exists>wd body lines' ww.
                              writeFileSync w3 ''/tmp/quickfix-debug.json'' (stringify env t)
                                = (Inr (), wd)
                              \<and> readFileSync wd filePath = Inr body
                              \<and> applyFileEdits (splitLines body) (quickFixFileEdits q) = Inr lines'
                              \<and> writeFileSync wd filePath (joinLines lines') = (Inr (), ww))" for msg
    by (rule applyQuickFixAndNotify_ok_iff)
  show "e = TypeError \<or> (\<exists>s. e = IOError s)"
    if "fst (applyQuickFixAndNotify env w3 filePath sid t q) = Inl e" for e
    using applyQuickFixAndNotify_errors [OF that] .
qed


theorem single_fix_outcomes_witness:
  "\<not> existsSync (demoWorld ''var a;'') ''/proj/none.js''
   \<and> handleApplyQuickFix (demoEnv [demoIssue ''javascript:S3504'' 1 1 0 3 ''let''] True)
        (demoWorld ''var a;'') ''/proj/none.js'' 1 ''javascript:S3504''
      = (Inl (FileNotFound ''/proj/none.js''), demoWorld ''var a;'')
   \<and> existsSync (demoWorld ''var a;'') demoPath
   \<and> fst (handleApplyQuickFix (demoEnv [demoIssue ''javascript:S3504'' 1 1 0 3 ''let''] True)
          (demoWorld ''var a;'') demoPath 2 ''javascript:S3504'')
      = Inl IssueNotFound"
proof -
  let ?i = "demoIssue ''javascript:S3504'' 1 1 0 3 ''let''"
  let ?env = "demoEnv [?i] True"
  let ?w = "demoWorld ''var a;''"
  let ?w1 = "snd (ensureSloopBridge ?env ?w)"
  let ?w2 = "snd (getOrCreateScope ?env ?w1 demoPath)"
  let ?w3 = "snd (analyzeFilesAndTrack ?env ?w2 ''scope-01234567'' [demoPath])"
  have n: "\<not> existsSync ?w ''/proj/none.js''"
    by (simp add: existsSync_def demo_defs)
  have h1: "existsSync ?w demoPath"
    by (simp add: existsSync_def demo_defs)
  have h2: "ensureSloopBridge ?env ?w = (Inr (), ?w1)"
    by (simp add: ensureSloopBridge_def demo_defs)
  have w1: "sloopBridge ?w1" "scopeMap ?w1 = []" "trace ?w1 = [Connect]"
    by (simp_all add: ensureSloopBridge_def demo_defs logEvent_def)
  have h3: "getOrCreateScope ?env ?w1 demoPath = (Inr ''scope-01234567'', ?w2)"
    using w1
    by (simp add: getOrCreateScope_def Let_def truthy_def mapGet_def bridgeCall_def
        logEvent_def demoEnv_def isNotification_def)
  have w2: "trace ?w2 = [Connect, AddConfigurationScope ''scope-01234567'' ''Project: /proj'']"
    using w1
    by (simp add: getOrCreateScope_def Let_def truthy_def mapGet_def bridgeCall_def
        logEvent_def demoEnv_def isNotification_def)
  have h4: "analyzeFilesAndTrack ?env ?w2 ''scope-01234567'' [demoPath] = (Inr (Some [?i]), ?w3)"
    using w2
    by (simp add: analyzeFilesAndTrack_def bridgeCall_def logEvent_def Let_def demoEnv_def
        isNotification_def isAnalyze_def)
  have l: "issueLine ?i = 1"
    by (simp add: demoIssue_def issueLine_def optField_def orElse_def)
  have none: "\<not> (\<exists>i \<in> set (rawIssuesOrEmpty (Some [?i])).
                  issueLine i = 2 \<and> ruleKey i = ''javascript:S3504'')"
    using l by (simp add: rawIssuesOrEmpty_def)
  note outcomes = single_fix_outcomes [of ?w _ ?env]
  have a: "handleApplyQuickFix ?env ?w ''/proj/none.js'' 1 ''javascript:S3504''
      = (Inl (FileNotFound ''/proj/none.js''), ?w)"
    using outcomes [of "''/proj/none.js''" 1 "''javascript:S3504''"] n by blast
  have b: "fst (handleApplyQuickFix ?env ?w demoPath 2 ''javascript:S3504'') = Inl IssueNotFound"
    using outcomes [of demoPath 2 "''javascript:S3504''"] h1 h2 h3 h4 none by blast
  show ?thesis using n a h1 b by blast
qed

section \<open>Properties of the scope map\<close>

lemma mapGet_mapSet:
  "mapGet (mapSet m k v) k' = (if k' = k then Some v else mapGet m k')"
  by (induction m) (auto simp: mapGet_def)

lemma getOrCreateScope_hit:
  assumes "truthy (mapGet (scopeMap w) (dirname env p)) = Some sid"
  shows "getOrCreateScope env w p = (Inr sid, w)"
  using assms by (simp add: getOrCreateScope_def Let_def)

lemma getOrCreateScope_miss:
  assumes miss: "truthy (mapGet (scopeMap w) (dirname env p)) = None"
    and ret: "getOrCreateScope env w p = (Inr sid, w')"
  shows "sid = ''scope-'' @ take 8 (md5hex env (dirname env p))"
    and "scopeMap w' = mapSet (scopeMap w) (dirname env p) sid"
    and "sloopBridge w \<Longrightarrow>
           trace w' = trace w @ [AddConfigurationScope sid (''Project: '' @ dirname env p)]"
    and "\<not> sloopBridge w \<Longrightarrow> trace w' = trace w"
  using assms
  by (auto simp: getOrCreateScope_def Let_def bridgeCall_iff split: if_splits prod.splits sum.splits)

lemma getOrCreateScope_binds:
  assumes "getOrCreateScope env w p = (Inr sid, w')"
  shows "truthy (mapGet (scopeMap w') (dirname env p)) = Some sid"
proof (cases "truthy (mapGet (scopeMap w) (dirname env p))")
  case None
  from getOrCreateScope_miss(1,2) [OF None assms]
  show ?thesis by (simp add: mapGet_mapSet truthy_def)
next
  case (Some s)
  with assms getOrCreateScope_hit [OF Some] show ?thesis by simp
qed

lemma getOrCreateScope_keeps:
  assumes "truthy (mapGet (scopeMap w) r) = Some sid"
  shows "truthy (mapGet (scopeMap (snd (getOrCreateScope env w p))) r) = Some sid"
proof (cases "truthy (mapGet (scopeMap w) (dirname env p))")
  case (Some s)
  then show ?thesis using assms getOrCreateScope_hit [OF Some] by simp
next
  case None
  with assms have ne: "r \<noteq> dirname env p" by auto
  obtain res w' where g: "getOrCreateScope env w p = (res, w')"
    by (cases "getOrCreateScope env w p")
  show ?thesis
  proof (cases res)
    case (Inl e)
    with g None have "scopeMap w' = scopeMap w"
      by (auto simp: getOrCreateScope_def Let_def bridgeCall_iff
          split: if_splits prod.splits sum.splits)
    with g assms show ?thesis by simp
  next
    case (Inr s)
    with g getOrCreateScope_miss(2) [OF None, of s w']
    have "scopeMap w' = mapSet (scopeMap w) (dirname env p) s" by simp
    with g assms ne show ?thesis by (simp add: mapGet_mapSet)
  qed
qed

lemma resolve_many_keeps:
  assumes "truthy (mapGet (scopeMap w) r) = Some sid"
  shows "truthy (mapGet (scopeMap (foldl (\<lambda>v q. snd (getOrCreateScope env v q)) w ps)) r)
           = Some sid"
  using assms
proof (induction ps arbitrary: w)
  case Nil
  then show ?case by simp
next
  case (Cons q ps)
  from Cons.IH [OF getOrCreateScope_keeps [OF Cons.prems, of env q]]
  show ?case by simp
qed

text \<open>
  C9, as stated, fails in one part: on a cache miss the scope is registered with the
  backend only if a bridge is connected. Without a bridge the new id is stored and
  returned, and nothing is sent.
\<close>

theorem scope_not_registered_without_bridge_counterexample:
  "truthy (mapGet (scopeMap (demoWorld ''x'')) (dirname (demoEnv [] True) demoPath)) = None
   \<and> getOrCreateScope (demoEnv [] True) (demoWorld ''x'') demoPath
      = (Inr ''scope-01234567'',
         \<lparr>files = [demoPath \<mapsto> \<lparr>content = ''x'', readable = True, writable = True\<rparr>],
          canCreate = (\<lambda>p. True),
          scopeMap = [(''/proj'', ''scope-01234567'')],
          sloopBridge = False,
          trace = []\<rparr>)"
  by (simp add: getOrCreateScope_def truthy_def mapGet_def demo_defs Let_def)


text \<open>
  C9, amended. A call that returns binds the root of its path to the id it returns, a
  binding is never changed or removed by a later call, and a call on a bound root returns
  the bound id and changes nothing: two calls on paths with the same parent directory
  return the same id, whatever calls lie between them. On a cache miss the id is
  \<open>scope-\<close> followed by the first 8 characters of the MD5 hex digest of the root (14
  characters, the last 8 of them hex digits, for a digest of 32 hex digits), the binding
  is stored, and the scope is registered with the backend when a bridge is connected.
\<close>

theorem scope_is_memoized_per_root:
  "(\<forall>p1 p2 id1 w1 ps.
      getOrCreateScope env w p1 = (Inr id1, w1) \<and> dirname env p1 = dirname env p2 \<longrightarrow>
      getOrCreateScope env (foldl (\<lambda>v q. snd (getOrCreateScope env v q)) w1 ps) p2
        = (Inr id1, foldl (\<lambda>v q. snd (getOrCreateScope env v q)) w1 ps))
   \<and> (\<forall>p sid w'.
        truthy (mapGet (scopeMap w) (dirname env p)) = None
        \<and> getOrCreateScope env w p = (Inr sid, w') \<longrightarrow>
        sid = ''scope-'' @ take 8 (md5hex env (dirname env p))
        \<and> (length (md5hex env (dirname env p)) = 32 \<longrightarrow> length sid = 14)
        \<and> ((\<forall>c \<in> set (md5hex env (dirname env p)). c \<in> set ''0123456789abcdef'') \<longrightarrow>
             (\<forall>c \<in> set (drop 6 sid). c \<in> set ''0123456789abcdef''))
        \<and> scopeMap w' = mapSet (scopeMap w) (dirname env p) sid
        \<and> mapGet (scopeMap w') (dirname env p) = Some sid
        \<and> (sloopBridge w \<longrightarrow>
             trace w' = trace w @ [AddConfigurationScope sid (''Project: '' @ dirname env p)])
        \<and> (\<not> sloopBridge w \<longrightarrow> trace w' = trace w))
   \<and> (\<forall>p r sid.
        truthy (mapGet (scopeMap w) r) = Some sid \<longrightarrow>
        truthy (mapGet (scopeMap (snd (getOrCreateScope env w p))) r) = Some sid)"
proof (intro conjI allI impI)
  fix p1 p2 id1 w1 ps
  assume h: "getOrCreateScope env w p1 = (Inr id1, w1) \<and> dirname env p1 = dirname env p2"
  then have "truthy (mapGet (scopeMap w1) (dirname env p2)) = Some id1"
    using getOrCreateScope_binds [of env w p1 id1 w1] by simp
  from getOrCreateScope_hit [OF resolve_many_keeps [OF this, of env ps]]
  show "getOrCreateScope env (foldl (\<lambda>v q. snd (getOrCreateScope env v q)) w1 ps) p2
        = (Inr id1, foldl (\<lambda>v q. snd (getOrCreateScope env v q)) w1 ps)" .
next
  fix p sid w'
  assume h: "truthy (mapGet (scopeMap w) (dirname env p)) = None
        \<and> getOrCreateScope env w p = (Inr sid, w')"
  then have miss: "truthy (mapGet (scopeMap w) (dirname env p)) = None"
    and ret: "getOrCreateScope env w p = (Inr sid, w')" by simp_all
  note m = getOrCreateScope_miss [OF miss ret]
  show sid: "sid = ''scope-'' @ take 8 (md5hex env (dirname env p))" by (rule m(1))
  show "length sid = 14" if "length (md5hex env (dirname env p)) = 32"
    using that sid by simp
  show "\<forall>c \<in> set (drop 6 sid). c \<in> set ''0123456789abcdef''"
    if hex: "\<forall>c \<in> set (md5hex env (dirname env p)). c \<in> set ''0123456789abcdef''"
  proof
    fix c assume "c \<in> set (drop 6 sid)"
    with sid have "c \<in> set (take 8 (md5hex env (dirname env p)))" by simp
    then have "c \<in> set (md5hex env (dirname env p))" by (rule in_set_takeD)
    with hex show "c \<in> set ''0123456789abcdef''" by blast
  qed
  show sm: "scopeMap w' = mapSet (scopeMap w) (dirname env p) sid" by (rule m(2))
  show "mapGet (scopeMap w') (dirname env p) = Some sid"
    by (simp add: sm mapGet_mapSet)
  show "trace w' = trace w @ [AddConfigurationScope sid (''Project: '' @ dirname env p)]"
    if "sloopBridge w" using m(3) [OF that] .
  show "trace w' = trace w" if "\<not> sloopBridge w" using m(4) [OF that] .
next
  fix p r sid
  assume "truthy (mapGet (scopeMap w) r) = Some sid"
  then show "truthy (mapGet (scopeMap (snd (getOrCreateScope env w p))) r) = Some sid"
    by (rule getOrCreateScope_keeps)
qed

theorem scope_is_memoized_per_root_witness:
  "truthy (mapGet (scopeMap ((demoWorld ''x'')\<lparr>sloopBridge := True\<rparr>))
             (dirname (demoEnv [] True) demoPath)) = None
   \<and> fst (getOrCreateScope (demoEnv [] True) ((demoWorld ''x'')\<lparr>sloopBridge := True\<rparr>) demoPath)
       = Inr ''scope-01234567''
   \<and> trace (snd (getOrCreateScope (demoEnv [] True)
                    ((demoWorld ''x'')\<lparr>sloopBridge := True\<rparr>) demoPath))
       = [AddConfigurationScope ''scope-01234567'' ''Project: /proj'']
   \<and> fst (getOrCreateScope (demoEnv [] True)
            (foldl (\<lambda>v q. snd (getOrCreateScope (demoEnv [] True) v q))
               (snd (getOrCreateScope (demoEnv [] True)
                       ((demoWorld ''x'')\<lparr>sloopBridge := True\<rparr>) demoPath))
               [''/proj/b.js''])
            ''/proj/c.js'')
       = Inr ''scope-01234567''"
proof -
  let ?env = "demoEnv [] True"
  let ?w = "(demoWorld ''x'')\<lparr>sloopBridge := True\<rparr>"
  let ?w1 = "snd (getOrCreateScope ?env ?w demoPath)"
  have miss: "truthy (mapGet (scopeMap ?w) (dirname ?env demoPath)) = None"
    by (simp add: truthy_def mapGet_def demo_defs)
  have g: "getOrCreateScope ?env ?w demoPath = (Inr ''scope-01234567'', ?w1)"
    by (simp add: getOrCreateScope_def truthy_def mapGet_def bridgeCall_def logEvent_def
        demo_defs Let_def)
  have d: "dirname ?env demoPath = dirname ?env ''/proj/c.js''"
    by (simp add: demoEnv_def)
  have b: "sloopBridge ?w" and t: "trace ?w = []" and r: "dirname ?env demoPath = ''/proj''"
    by (simp_all add: demo_defs)
  note facts = scope_is_memoized_per_root [of ?env ?w]
  have again: "getOrCreateScope ?env
            (foldl (\<lambda>v q. snd (getOrCreateScope ?env v q)) ?w1 [''/proj/b.js'']) ''/proj/c.js''
        = (Inr ''scope-01234567'',
           foldl (\<lambda>v q. snd (getOrCreateScope ?env v q)) ?w1 [''/proj/b.js''])"
    using facts g d by blast
  have "trace ?w1 = trace ?w
          @ [AddConfigurationScope ''scope-01234567'' (''Project: '' @ dirname ?env demoPath)]"
    using facts miss g b by blast
  then have tr: "trace ?w1 = [AddConfigurationScope ''scope-01234567'' ''Project: /proj'']"
    by (simp add: t r)
  have first: "fst (getOrCreateScope ?env ?w demoPath) = Inr ''scope-01234567''"
    using arg_cong [OF g, of fst] by (simp only: fst_conv)
  have second: "fst (getOrCreateScope ?env
            (foldl (\<lambda>v q. snd (getOrCreateScope ?env v q)) ?w1 [''/proj/b.js'']) ''/proj/c.js'')
        = Inr ''scope-01234567''"
    using arg_cong [OF again, of fst] by (simp only: fst_conv)
  show ?thesis using miss first tr second by blast
qed

end
